theory Spec2Isabelle
  imports Main "HOL-Library.Sublist"
begin

section \<open>Python strings\<close>

text \<open>
  A Python \<open>str\<close> is a sequence of code points. The model is \<^typ>\<open>string\<close>, read as
  the code points below 256 (ASCII and Latin-1), which is closed under the three
  string operations the program uses: \<open>len\<close>, \<open>str.lower\<close> and \<open>str.strip\<close>.
\<close>

definition code_point :: "char \<Rightarrow> nat" where
  "code_point c = of_char c"

text \<open>\<open>str.lower\<close>: the upper-case letters below 256 are A-Z and U+00C0-U+00DE without
  the multiplication sign U+00D7; each has its lower-case partner 32 code points up.\<close>

definition lower_char :: "char \<Rightarrow> char" where
  "lower_char c =
     (let n = code_point c in
      if (65 \<le> n \<and> n \<le> 90) \<or> (192 \<le> n \<and> n \<le> 222 \<and> n \<noteq> 215)
      then char_of (n + 32) else c)"

definition lower :: "string \<Rightarrow> string" where
  "lower s = map lower_char s"

text \<open>\<open>str.isspace\<close> on one code point below 256: TAB, LF, VT, FF, CR, the four
  separators U+001C-U+001F, SPACE, NEL (U+0085) and NBSP (U+00A0).\<close>

definition isspace :: "char \<Rightarrow> bool" where
  "isspace c =
     (let n = code_point c in
      (9 \<le> n \<and> n \<le> 13) \<or> (28 \<le> n \<and> n \<le> 32) \<or> n = 133 \<or> n = 160)"

text \<open>\<open>str.strip()\<close> removes the leading and the trailing run of whitespace.\<close>

definition strip :: "string \<Rightarrow> string" where
  "strip s = rev (dropWhile isspace (rev (dropWhile isspace s)))"

text \<open>\<open>str(n)\<close> for a natural number: its decimal digits.\<close>

fun str_nat :: "nat \<Rightarrow> string" where
  "str_nat n =
     (if n < 10 then [char_of (48 + n)]
      else str_nat (n div 10) @ [char_of (48 + n mod 10)])"

declare str_nat.simps [simp del]

section \<open>Exceptions\<close>

text \<open>
  Every exception class that a modelled function can raise. \<open>ValueError\<close>,
  \<open>AttributeError\<close>, \<open>TypeError\<close> and \<open>KeyError\<close> are Python's own;
  \<open>OpenCTIAPIError\<close> and \<open>ConfigurationError\<close> are the two classes of
  \<open>exceptions.py\<close>; \<open>ToolError\<close> is the error of the tool framework;
  \<open>TransportError\<close> stands for whatever the HTTP library raises (connection
  failure, time-out, a non-2xx status in \<open>raise_for_status\<close>).
\<close>

datatype py_exception =
    ValueError string
  | AttributeError
  | TypeError
  | KeyError string
  | OpenCTIAPIError string
  | ConfigurationError string
  | ToolError string
  | TransportError

type_synonym 'a result = "py_exception + 'a"

definition bind :: "'a result \<Rightarrow> ('a \<Rightarrow> 'b result) \<Rightarrow> 'b result" where
  "bind m f = (case m of Inl e \<Rightarrow> Inl e | Inr x \<Rightarrow> f x)"

section \<open>Regular expressions (the fragment of \<open>re\<close> that \<open>observables.py\<close> uses)\<close>

text \<open>
  A position in the subject string is the text already consumed, reversed, paired
  with the text still ahead. The matcher is a backtracking matcher: it returns every
  position at which a match of the pattern that starts at the given position can end,
  the preferred (greedy) one first.
\<close>

type_synonym pos = "string \<times> string"

datatype regex =
    Bol                              \<comment> \<open>\<open>^\<close>\<close>
  | Eol                              \<comment> \<open>\<open>$\<close>\<close>
  | Chr char                         \<comment> \<open>a literal character, \<open>\.\<close> or \<open>-\<close>\<close>
  | Set "(char \<times> char) list"         \<comment> \<open>\<open>[...]\<close>, a list of ranges\<close>
  | Cat regex regex                  \<comment> \<open>juxtaposition\<close>
  | Rep regex nat "nat option"       \<comment> \<open>\<open>r{m,n}\<close>; \<open>r+\<close> is \<open>Rep r 1 None\<close>, \<open>r*\<close> is \<open>Rep r 0 None\<close>\<close>
  | NotAhead regex                   \<comment> \<open>\<open>(?!r)\<close>\<close>
  | NotBehind regex                  \<comment> \<open>\<open>(?<!r)\<close>\<close>

definition in_set :: "(char \<times> char) list \<Rightarrow> char \<Rightarrow> bool" where
  "in_set rs c = list_ex (\<lambda>(lo, hi). code_point lo \<le> code_point c \<and> code_point c \<le> code_point hi) rs"

primrec rep_exact :: "(pos \<Rightarrow> pos list) \<Rightarrow> nat \<Rightarrow> pos \<Rightarrow> pos list" where
  "rep_exact f 0 p = [p]"
| "rep_exact f (Suc n) p = concat (map (rep_exact f n) (f p))"

primrec rep_upto :: "(pos \<Rightarrow> pos list) \<Rightarrow> nat \<Rightarrow> pos \<Rightarrow> pos list" where
  "rep_upto f 0 p = [p]"
| "rep_upto f (Suc n) p = concat (map (rep_upto f n) (f p)) @ [p]"

definition rewind :: "nat \<Rightarrow> pos \<Rightarrow> pos" where
  "rewind k p = (drop k (fst p), rev (take k (fst p)) @ snd p)"

text \<open>
  \<open>$\<close> (without the MULTILINE flag) matches at the end of the string and also just
  before a line feed that is the last character of the string. An unbounded
  repetition needs at most one iteration per character still ahead on top of its
  minimum, since an iteration that consumes nothing reaches no new position.
\<close>

primrec matches_at :: "regex \<Rightarrow> pos \<Rightarrow> pos list" where
  "matches_at Bol p = (if fst p = [] then [p] else [])"
| "matches_at Eol p = (if snd p = [] \<or> snd p = [CHR 0x0A] then [p] else [])"
| "matches_at (Chr c) p =
     (case snd p of [] \<Rightarrow> [] | x # xs \<Rightarrow> if x = c then [(x # fst p, xs)] else [])"
| "matches_at (Set rs) p =
     (case snd p of [] \<Rightarrow> [] | x # xs \<Rightarrow> if in_set rs x then [(x # fst p, xs)] else [])"
| "matches_at (Cat r s) p = concat (map (matches_at s) (matches_at r p))"
| "matches_at (Rep r lo hi) p =
     concat (map (rep_upto (matches_at r)
                    (case hi of None \<Rightarrow> length (snd p) | Some h \<Rightarrow> h - lo))
                 (rep_exact (matches_at r) lo p))"
| "matches_at (NotAhead r) p = (if matches_at r p = [] then [p] else [])"
| "matches_at (NotBehind r) p =
     (if list_ex (\<lambda>k. p \<in> set (matches_at r (rewind k p))) [0 ..< Suc (length (fst p))]
      then [] else [p])"

text \<open>A pattern written as a sequence of parts; the empty sequence matches the empty
  string.\<close>

fun seq :: "regex list \<Rightarrow> regex" where
  "seq [] = Rep Bol 0 (Some 0)"
| "seq [r] = r"
| "seq (r # rs) = Cat r (seq rs)"

text \<open>\<open>pattern.match(s) is not None\<close>: some match starts at the beginning of \<open>s\<close>.\<close>

definition re_match :: "regex \<Rightarrow> string \<Rightarrow> bool" where
  "re_match r s = (matches_at r ([], s) \<noteq> [])"

section \<open>\<open>observables.py\<close>\<close>

datatype observable_kind = Ip | Domain | Hash

definition OBSERVABLE_TYPES :: "observable_kind \<Rightarrow> string list" where
  "OBSERVABLE_TYPES k =
     (case k of Ip \<Rightarrow> [''IPv4-Addr'', ''IPv6-Addr'']
              | Domain \<Rightarrow> [''Domain-Name'']
              | Hash \<Rightarrow> [''Artifact'', ''StixFile''])"

definition HASH_LENGTHS :: "nat set" where
  "HASH_LENGTHS = {32, 40, 64, 128}"

definition hex_set :: regex where
  "hex_set = Set [(CHR ''A'', CHR ''F''), (CHR ''a'', CHR ''f''), (CHR ''0'', CHR ''9'')]"

definition ldh_set :: regex where
  "ldh_set = Set [(CHR ''A'', CHR ''Z''), (CHR ''a'', CHR ''z''), (CHR ''0'', CHR ''9''),
                  (CHR ''-'', CHR ''-'')]"

definition alpha_set :: regex where
  "alpha_set = Set [(CHR ''A'', CHR ''Z''), (CHR ''a'', CHR ''z'')]"

text \<open>\<^verbatim>\<open>^[A-Fa-f0-9]+$\<close>\<close>

definition HASH_REGEX :: regex where
  "HASH_REGEX = seq [Bol, Rep hex_set 1 None, Eol]"

text \<open>\<^verbatim>\<open>(?!-)[A-Za-z0-9-]{1,63}(?<!-)\<close>, the part of the pattern that stands for one label.\<close>

definition label_re :: regex where
  "label_re = seq [NotAhead (Chr CHR ''-''), Rep ldh_set 1 (Some 63), NotBehind (Chr CHR ''-'')]"

text \<open>\<^verbatim>\<open>^(?!-)[A-Za-z0-9-]{1,63}(?<!-)(?:\.(?!-)[A-Za-z0-9-]{1,63}(?<!-))*\.[A-Za-z]{2,63}$\<close>\<close>

definition DOMAIN_REGEX :: regex where
  "DOMAIN_REGEX =
     seq [Bol, label_re,
          Rep (Cat (Chr CHR ''.'') label_re) 0 None,
          Chr CHR ''.'', Rep alpha_set 2 (Some 63), Eol]"

text \<open>
  \<open>ipaddress.ip_address\<close> belongs to Python's standard library, not to this
  program; the model takes it as a parameter that gives the version (4 or 6) of the
  address parsed, or \<open>None\<close> where the library raises \<open>ValueError\<close>.
\<close>

datatype ip_version = V4 | V6

type_synonym ip_parser = "string \<Rightarrow> ip_version option"

definition is_ip_address :: "ip_parser \<Rightarrow> string \<Rightarrow> bool" where
  "is_ip_address ip_address v = (ip_address v \<noteq> None)"

definition is_hash :: "string \<Rightarrow> bool" where
  "is_hash v = (let l = lower v in length l \<in> HASH_LENGTHS \<and> re_match HASH_REGEX l)"

definition is_domain :: "string \<Rightarrow> bool" where
  "is_domain v = re_match DOMAIN_REGEX v"

definition infer_observable_type :: "ip_parser \<Rightarrow> string \<Rightarrow> observable_kind option" where
  "infer_observable_type ip_address v =
     (let candidate = strip v in
      if candidate = [] then None
      else if is_ip_address ip_address candidate then Some Ip
      else if is_hash candidate then Some Hash
      else if is_domain candidate then Some Domain
      else None)"

definition get_hash_algorithm :: "string \<Rightarrow> py_exception + string" where
  "get_hash_algorithm hash_value =
     (let l = length hash_value;
          algorithm_map = [32 \<mapsto> ''MD5'', 40 \<mapsto> ''SHA-1'', 64 \<mapsto> ''SHA-256'', 128 \<mapsto> ''SHA-512'']
      in case algorithm_map l of
           None \<Rightarrow> Inl (ValueError (''Invalid hash length '' @ str_nat l
                                     @ ''. Expected one of: [32, 40, 64, 128]''))
         | Some a \<Rightarrow> Inr a)"


section \<open>JSON values as Python sees them\<close>

text \<open>
  What \<open>response.json()\<close> returns: \<open>None\<close>, a bool, an int, a str, a list or a dict.
  A dict is an association list in insertion order, each key once; a lookup takes the
  first binding of a key. Floats are left out: no field the program reads is numeric.
\<close>

datatype json =
    JNull
  | JBool bool
  | JInt int
  | JString string
  | JArray "json list"
  | JObject "(string \<times> json) list"

text \<open>Truth value testing: \<open>None\<close>, \<open>False\<close>, \<open>0\<close>, \<open>''\<close>, \<open>[]\<close> and \<open>{}\<close> are false.\<close>

fun truthy :: "json \<Rightarrow> bool" where
  "truthy JNull = False"
| "truthy (JBool b) = b"
| "truthy (JInt i) = (i \<noteq> 0)"
| "truthy (JString s) = (s \<noteq> [])"
| "truthy (JArray xs) = (xs \<noteq> [])"
| "truthy (JObject kvs) = (kvs \<noteq> [])"

text \<open>\<open>a or b\<close>\<close>

definition py_or :: "json \<Rightarrow> json \<Rightarrow> json" where
  "py_or a b = (if truthy a then a else b)"

text \<open>\<open>x.get(k, d)\<close>: only a dict has the method.\<close>

fun dict_get_default :: "json \<Rightarrow> string \<Rightarrow> json \<Rightarrow> json result" where
  "dict_get_default (JObject kvs) k d = Inr (case map_of kvs k of None \<Rightarrow> d | Some v \<Rightarrow> v)"
| "dict_get_default _ k d = Inl AttributeError"

text \<open>\<open>x.get(k)\<close>\<close>

definition dict_get :: "json \<Rightarrow> string \<Rightarrow> json result" where
  "dict_get x k = dict_get_default x k JNull"

text \<open>\<open>x[k]\<close> with a string \<open>k\<close>\<close>

fun py_getitem :: "json \<Rightarrow> string \<Rightarrow> json result" where
  "py_getitem (JObject kvs) k = (case map_of kvs k of None \<Rightarrow> Inl (KeyError k) | Some v \<Rightarrow> Inr v)"
| "py_getitem _ k = Inl TypeError"

text \<open>\<open>k in x\<close> with a string \<open>k\<close>: a key of a dict, a substring of a str, an element of
  a list.\<close>

fun py_contains :: "string \<Rightarrow> json \<Rightarrow> bool result" where
  "py_contains k (JObject kvs) = Inr (k \<in> set (map fst kvs))"
| "py_contains k (JString s) = Inr (sublist k s)"
| "py_contains k (JArray xs) = Inr (JString k \<in> set xs)"
| "py_contains k _ = Inl TypeError"

text \<open>\<open>for e in x\<close>: the elements of a list, the characters of a str, the keys of a dict.\<close>

fun py_iter :: "json \<Rightarrow> json list result" where
  "py_iter (JArray xs) = Inr xs"
| "py_iter (JString s) = Inr (map (\<lambda>c. JString [c]) s)"
| "py_iter (JObject kvs) = Inr (map (\<lambda>kv. JString (fst kv)) kvs)"
| "py_iter _ = Inl TypeError"

text \<open>\<open>repr\<close> and \<open>str\<close>\<close>

definition str_int :: "int \<Rightarrow> string" where
  "str_int i = (if i < 0 then CHR ''-'' # str_nat (nat (- i)) else str_nat (nat i))"

definition hex_digit :: "nat \<Rightarrow> char" where
  "hex_digit n = (if n < 10 then char_of (48 + n) else char_of (87 + n))"

definition repr_char :: "char \<Rightarrow> char \<Rightarrow> string" where
  "repr_char quote c =
     (let n = code_point c in
      if c = quote \<or> c = CHR 0x5C then [CHR 0x5C, c]
      else if n = 9 then [CHR 0x5C, CHR ''t'']
      else if n = 10 then [CHR 0x5C, CHR ''n'']
      else if n = 13 then [CHR 0x5C, CHR ''r'']
      else if n < 32 \<or> (127 \<le> n \<and> n \<le> 160) \<or> n = 173
        then [CHR 0x5C, CHR ''x'', hex_digit (n div 16), hex_digit (n mod 16)]
      else [c])"

definition repr_str :: "string \<Rightarrow> string" where
  "repr_str s =
     (let quote = (if CHR 0x27 \<in> set s \<and> CHR 0x22 \<notin> set s then CHR 0x22 else CHR 0x27)
      in quote # concat (map (repr_char quote) s) @ [quote])"

fun join :: "string \<Rightarrow> string list \<Rightarrow> string" where
  "join sep [] = []"
| "join sep [x] = x"
| "join sep (x # xs) = x @ sep @ join sep xs"

fun py_repr :: "json \<Rightarrow> string" where
  "py_repr JNull = ''None''"
| "py_repr (JBool b) = (if b then ''True'' else ''False'')"
| "py_repr (JInt i) = str_int i"
| "py_repr (JString s) = repr_str s"
| "py_repr (JArray xs) = ''['' @ join '', '' (map py_repr xs) @ '']''"
| "py_repr (JObject kvs) =
     ''{'' @ join '', '' (map (\<lambda>kv. repr_str (fst kv) @ '': '' @ py_repr (snd kv)) kvs) @ ''}''"

definition py_str :: "json \<Rightarrow> string" where
  "py_str x = (case x of JString s \<Rightarrow> s | _ \<Rightarrow> py_repr x)"

section \<open>\<open>client.py\<close>\<close>

text \<open>
  The HTTP transport is a parameter. A request is the GraphQL document, named by its
  operation, with the variables sent (\<open>variables or {}\<close>); the transport answers from the requests made before
  and the request at hand, so a remote store with state is covered. Its answer is a
  failure of the HTTP library (\<open>client.post\<close> or \<open>raise_for_status\<close> raises), a body
  that is not JSON (with the snippet \<open>_truncate_text\<close> makes of it), or the decoded
  payload. Every request is appended to the trace, the list of requests issued so far.
\<close>

datatype gql_operation =
    FindObservables | AskEnrichment | CreateDomain | CreateIPv4 | CreateIPv6 | CreateArtifact

datatype gql_request = Request gql_operation json

datatype http_result = TransportFailure | InvalidJSON string | Payload json

type_synonym trace = "gql_request list"

type_synonym transport = "trace \<Rightarrow> gql_request \<Rightarrow> http_result"

definition graphql_query :: "transport \<Rightarrow> trace \<Rightarrow> gql_operation \<Rightarrow> json \<Rightarrow> json result \<times> trace" where
  "graphql_query post tr query variables =
     (let request = Request query (py_or variables (JObject [])) in
      ((case post tr request of
          TransportFailure \<Rightarrow> Inl TransportError
        | InvalidJSON snippet \<Rightarrow>
            Inl (OpenCTIAPIError (''Invalid JSON response from OpenCTI GraphQL API: '' @ snippet))
        | Payload payload \<Rightarrow>
            bind (dict_get payload ''errors'') (\<lambda>errors.
              if truthy errors then Inl (OpenCTIAPIError (''GraphQL error: '' @ py_str errors))
              else dict_get_default payload ''data'' (JObject []))),
       tr @ [request]))"

text \<open>The loop over \<open>hashes\<close> in \<open>_match_observable_node\<close>.\<close>

fun match_hashes :: "json list \<Rightarrow> string \<Rightarrow> bool result" where
  "match_hashes [] target = Inr False"
| "match_hashes (entry # entries) target =
     bind (dict_get_default entry ''hash'' (JString [])) (\<lambda>h.
       if lower (py_str h) = target then Inr True else match_hashes entries target)"

text \<open>The list \<open>observed_values\<close> that \<open>_match_observable_node\<close> builds from the node.\<close>

definition observed_values :: "json \<Rightarrow> string list result" where
  "observed_values node =
     bind (dict_get_default node ''observable_value'' (JString [])) (\<lambda>ov.
     bind (dict_get_default node ''value'' (JString [])) (\<lambda>v.
     bind (dict_get_default node ''name'' (JString [])) (\<lambda>nm.
       Inr [lower (py_str ov), lower (py_str v), lower (py_str nm)])))"

definition match_observable_node :: "json \<Rightarrow> string \<Rightarrow> json option result" where
  "match_observable_node edge target =
     bind (dict_get (py_or edge (JObject [])) ''node'') (\<lambda>n.
       let node = py_or n (JObject []) in
       if \<not> truthy node then Inr None
       else
         bind (observed_values node) (\<lambda>vals.
           if target \<in> set vals then Inr (Some node)
           else
             bind (dict_get node ''hashes'') (\<lambda>h.
             bind (py_iter (py_or h (JArray []))) (\<lambda>hashes.
             bind (match_hashes hashes target) (\<lambda>hit.
               if hit then Inr (Some node) else Inr None)))))"

text \<open>The loop over \<open>edges\<close> in \<open>find_observable_by_value\<close>.\<close>

fun find_first_match :: "json list \<Rightarrow> string \<Rightarrow> json option result" where
  "find_first_match [] target = Inr None"
| "find_first_match (edge # edges) target =
     bind (match_observable_node edge target) (\<lambda>r.
       case r of
         None \<Rightarrow> find_first_match edges target
       | Some node \<Rightarrow> if truthy node then Inr (Some node) else find_first_match edges target)"

text \<open>Lines 187-196 of \<open>find_observable_by_value\<close>: what it does with the data returned.\<close>

definition scan_observables :: "json \<Rightarrow> string \<Rightarrow> json option result" where
  "scan_observables data v =
     bind (dict_get_default data ''stixCyberObservables'' (JObject [])) (\<lambda>container.
     bind (dict_get_default container ''edges'' (JArray [])) (\<lambda>edges.
       let target = lower v in
       bind (py_iter edges) (\<lambda>es. find_first_match es target)))"

definition find_observable_by_value ::
  "transport \<Rightarrow> trace \<Rightarrow> string \<Rightarrow> string list \<Rightarrow> int \<Rightarrow> json option result \<times> trace" where
  "find_observable_by_value post tr v types limit =
     (case graphql_query post tr FindObservables
             (JObject [(''search'', JString v), (''types'', JArray (map JString types)),
                       (''first'', JInt limit)]) of
        (Inl e, tr') \<Rightarrow> (Inl e, tr')
      | (Inr data, tr') \<Rightarrow> (scan_observables data v, tr'))"

definition ask_enrichment :: "transport \<Rightarrow> trace \<Rightarrow> json \<Rightarrow> string \<Rightarrow> json result \<times> trace" where
  "ask_enrichment post tr entity_id connector_id =
     (case graphql_query post tr AskEnrichment
             (JObject [(''id'', entity_id), (''connectorId'', JString connector_id)]) of
        (Inl e, tr') \<Rightarrow> (Inl e, tr')
      | (Inr data, tr') \<Rightarrow>
          (bind (dict_get_default data ''stixCoreObjectEdit'' (JObject [])) (\<lambda>edit_block.
           bind (dict_get edit_block ''askEnrichment'') (\<lambda>enrichment.
             if \<not> truthy enrichment
             then Inl (OpenCTIAPIError ''Failed to request enrichment for the observable.'')
             else bind (py_contains ''id'' enrichment) (\<lambda>has_id.
               if \<not> has_id
               then Inl (OpenCTIAPIError ''Failed to request enrichment for the observable.'')
               else py_getitem enrichment ''id''))), tr'))"

definition execute_create_mutation ::
  "transport \<Rightarrow> trace \<Rightarrow> gql_operation \<Rightarrow> json \<Rightarrow> json result \<times> trace" where
  "execute_create_mutation post tr mutation variables =
     (case graphql_query post tr mutation variables of
        (Inl e, tr') \<Rightarrow> (Inl e, tr')
      | (Inr data, tr') \<Rightarrow>
          (bind (dict_get data ''stixCyberObservableAdd'') (\<lambda>created.
             if \<not> truthy created then Inl (OpenCTIAPIError ''Failed to create observable.'')
             else bind (py_contains ''id'' created) (\<lambda>has_id.
               if \<not> has_id then Inl (OpenCTIAPIError ''Failed to create observable.'')
               else Inr created)), tr'))"

definition create_domain_observable :: "transport \<Rightarrow> trace \<Rightarrow> string \<Rightarrow> json result \<times> trace" where
  "create_domain_observable post tr v =
     execute_create_mutation post tr CreateDomain
       (JObject [(''type'', JString ''Domain-Name''), (''input'', JObject [(''value'', JString v)])])"

definition create_ip_observable ::
  "ip_parser \<Rightarrow> transport \<Rightarrow> trace \<Rightarrow> string \<Rightarrow> json result \<times> trace" where
  "create_ip_observable ip_address post tr v =
     (case ip_address v of
        None \<Rightarrow> (Inl (OpenCTIAPIError (''Invalid IP address value: '' @ v)), tr)
      | Some V4 \<Rightarrow>
          execute_create_mutation post tr CreateIPv4
            (JObject [(''type'', JString ''IPv4-Addr''), (''input'', JObject [(''value'', JString v)])])
      | Some V6 \<Rightarrow>
          execute_create_mutation post tr CreateIPv6
            (JObject [(''type'', JString ''IPv6-Addr''), (''input'', JObject [(''value'', JString v)])]))"

definition create_hash_observable :: "transport \<Rightarrow> trace \<Rightarrow> string \<Rightarrow> json result \<times> trace" where
  "create_hash_observable post tr v =
     (case get_hash_algorithm v of
        Inl (ValueError m) \<Rightarrow> (Inl (OpenCTIAPIError m), tr)
      | Inl e \<Rightarrow> (Inl e, tr)
      | Inr algo \<Rightarrow>
          execute_create_mutation post tr CreateArtifact
            (JObject [(''type'', JString ''Artifact''),
                      (''input'', JObject [(''hashes'',
                         JArray [JObject [(''algorithm'', JString algo), (''hash'', JString v)]])])]))"

text \<open>\<open>OpenCTIClient.create_observable\<close>\<close>

definition client_create_observable ::
  "ip_parser \<Rightarrow> transport \<Rightarrow> trace \<Rightarrow> string \<Rightarrow> observable_kind \<Rightarrow> json result \<times> trace" where
  "client_create_observable ip_address post tr v observable_type =
     (case observable_type of
        Domain \<Rightarrow> create_domain_observable post tr v
      | Ip \<Rightarrow> create_ip_observable ip_address post tr v
      | Hash \<Rightarrow> create_hash_observable post tr v)"

section \<open>\<open>server.py\<close>\<close>

text \<open>
  The settings the tools read: the outcome of \<open>get_settings()\<close>, which is the settings
  object or a \<open>ConfigurationError\<close>. \<open>timeout_seconds\<close> only configures the transport
  and is left out. The environment of a tool call is the address parser, the transport
  and that outcome. \<open>context.log\<close> only writes a log line and is not modelled.
\<close>

record OpenCTISettings =
  base_url :: string
  api_token :: string
  verify_ssl :: bool
  virustotal_connector_id :: "string option"

record env =
  env_ip_address :: ip_parser
  env_post :: transport
  env_settings :: "OpenCTISettings result"

definition kind_name :: "observable_kind \<Rightarrow> string" where
  "kind_name k = (case k of Ip \<Rightarrow> ''ip'' | Domain \<Rightarrow> ''domain'' | Hash \<Rightarrow> ''hash'')"

text \<open>The keys of \<open>OBSERVABLE_TYPES\<close>.\<close>

definition kind_of_name :: "string \<Rightarrow> observable_kind option" where
  "kind_of_name n =
     (if n = ''ip'' then Some Ip else if n = ''domain'' then Some Domain
      else if n = ''hash'' then Some Hash else None)"

definition quoted :: "string \<Rightarrow> string" where
  "quoted s = CHR 0x27 # s @ [CHR 0x27]"

text \<open>\<open>wrap_api_error(exc, fallback_message)\<close>, with \<open>exc\<close> given by \<open>str(exc)\<close>.\<close>

definition wrap_api_error :: "string \<Rightarrow> string \<Rightarrow> py_exception" where
  "wrap_api_error exc fallback_message =
     (let message = strip exc in ToolError (if message = [] then fallback_message else message))"

text \<open>\<open>except OpenCTIAPIError as exc: raise wrap_api_error(exc, fallback)\<close>: every other
  exception passes through.\<close>

definition except_api_error :: "string \<Rightarrow> py_exception \<Rightarrow> py_exception" where
  "except_api_error fallback_message e =
     (case e of OpenCTIAPIError m \<Rightarrow> wrap_api_error m fallback_message | _ \<Rightarrow> e)"

definition build_client :: "env \<Rightarrow> OpenCTISettings result" where
  "build_client E =
     (case env_settings E of
        Inl (ConfigurationError m) \<Rightarrow> Inl (ToolError m)
      | Inl e \<Rightarrow> Inl e
      | Inr settings \<Rightarrow> Inr settings)"

definition normalize_observable_type ::
  "ip_parser \<Rightarrow> string \<Rightarrow> string option \<Rightarrow> observable_kind result" where
  "normalize_observable_type ip_address v value_type =
     (if value_type \<noteq> None \<and> value_type \<noteq> Some []
      then (case kind_of_name (lower (the value_type)) of
              None \<Rightarrow> Inl (ToolError ''Parameter 'value_type' must be one of: ip, domain, hash.'')
            | Some normalized \<Rightarrow> Inr normalized)
      else (case infer_observable_type ip_address v of
              None \<Rightarrow> Inl (ToolError
                (''Unable to infer value type. '' @
                 ''Please provide 'value_type' as ip, domain, or hash.''))
            | Some inferred \<Rightarrow> Inr inferred))"

definition format_observable_result :: "json \<Rightarrow> string \<Rightarrow> string \<Rightarrow> json result" where
  "format_observable_result observable original_value status =
     bind (py_getitem observable ''id'') (\<lambda>oid.
     bind (dict_get observable ''entity_type'') (\<lambda>entity_type.
     bind (dict_get observable ''observable_value'') (\<lambda>ov.
     bind (if truthy ov then Inr ov else dict_get observable ''value'') (\<lambda>ov_v.
     bind (if truthy ov_v then Inr ov_v else dict_get observable ''name'') (\<lambda>ov_v_n.
       Inr (JObject
         [(''status'', JString status),
          (''observable'', JObject
             [(''id'', oid), (''entity_type'', entity_type),
              (''value'', py_or ov_v_n (JString original_value))])]))))))"

text \<open>The tool \<open>create_observable\<close>.\<close>

definition create_observable :: "env \<Rightarrow> string \<Rightarrow> string option \<Rightarrow> json result \<times> trace" where
  "create_observable E v value_type =
     (if v = [] \<or> strip v = []
      then (Inl (ToolError ''Parameter 'value' must be a non-empty string.''), [])
      else
       (case normalize_observable_type (env_ip_address E) v value_type of
          Inl e \<Rightarrow> (Inl e, [])
        | Inr normalized_type \<Rightarrow>
       (case build_client E of
          Inl e \<Rightarrow> (Inl e, [])
        | Inr client \<Rightarrow>
       (let allowed_types = OBSERVABLE_TYPES normalized_type in
       (case find_observable_by_value (env_post E) [] (strip v) allowed_types 10 of
          (Inl e, tr) \<Rightarrow>
            (Inl (except_api_error ''Failed to search for observable in OpenCTI.'' e), tr)
        | (Inr (Some existing), tr) \<Rightarrow> (format_observable_result existing v ''exists'', tr)
        | (Inr None, tr) \<Rightarrow>
       (case client_create_observable (env_ip_address E) (env_post E) tr (strip v)
               normalized_type of
          (Inl e, tr') \<Rightarrow>
            (Inl (except_api_error ''Failed to create observable in OpenCTI.'' e), tr')
        | (Inr created, tr') \<Rightarrow> (format_observable_result created v ''created'', tr')))))))"

text \<open>The tool \<open>ask_virustotal_enrichment\<close>.\<close>

definition ask_virustotal_enrichment ::
  "env \<Rightarrow> string \<Rightarrow> string option \<Rightarrow> json result \<times> trace" where
  "ask_virustotal_enrichment E v value_type =
     (if v = [] \<or> strip v = []
      then (Inl (ToolError ''Parameter 'value' must be a non-empty string.''), [])
      else
       (case env_settings E of
          Inl e \<Rightarrow> (Inl e, [])
        | Inr settings \<Rightarrow>
       (if virustotal_connector_id settings = None \<or> virustotal_connector_id settings = Some []
        then (Inl (ToolError (''VirusTotal connector not configured. '' @
                              ''Set VIRUSTOTAL_CONNECTOR_ID environment variable.'')), [])
        else
       (let connector_id = the (virustotal_connector_id settings) in
       (case normalize_observable_type (env_ip_address E) v value_type of
          Inl e \<Rightarrow> (Inl e, [])
        | Inr normalized_type \<Rightarrow>
       (case build_client E of
          Inl e \<Rightarrow> (Inl e, [])
        | Inr client \<Rightarrow>
       (let allowed_types = OBSERVABLE_TYPES normalized_type in
       (case find_observable_by_value (env_post E) [] (strip v) allowed_types 10 of
          (Inl e, tr) \<Rightarrow>
            (Inl (except_api_error ''Failed to search for observable in OpenCTI.'' e), tr)
        | (Inr None, tr) \<Rightarrow>
            (Inl (ToolError (''No observable found matching value '' @ quoted v @
                             '' for type '' @ quoted (kind_name normalized_type) @ ''.'')), tr)
        | (Inr (Some observable), tr) \<Rightarrow>
       (case py_getitem observable ''id'' of
          Inl e \<Rightarrow> (Inl e, tr)
        | Inr observable_id \<Rightarrow>
       (case ask_enrichment (env_post E) tr observable_id connector_id of
          (Inl e, tr') \<Rightarrow>
            (Inl (except_api_error ''Failed to request enrichment from OpenCTI.'' e), tr')
        | (Inr work_id, tr') \<Rightarrow>
            (bind (dict_get observable ''observable_value'') (\<lambda>ov.
             bind (if truthy ov then Inr ov else dict_get observable ''value'') (\<lambda>ov_v.
             bind (if truthy ov_v then Inr ov_v else dict_get observable ''name'') (\<lambda>ov_v_n.
             bind (dict_get observable ''entity_type'') (\<lambda>entity_type.
               Inr (JObject
                 [(''work_id'', work_id),
                  (''connector_id'', JString connector_id),
                  (''observable'', JObject
                     [(''id'', observable_id), (''entity_type'', entity_type),
                      (''value'', py_or ov_v_n (JString v))])]))))), tr')))))))))))"

section \<open>Vocabulary of the statements\<close>

text \<open>The character classes \<open>[A-Fa-f0-9]\<close>, \<open>[A-Za-z0-9-]\<close> and \<open>[A-Za-z]\<close>.\<close>

definition hex_char :: "char \<Rightarrow> bool" where
  "hex_char c = in_set [(CHR ''A'', CHR ''F''), (CHR ''a'', CHR ''f''), (CHR ''0'', CHR ''9'')] c"

definition ldh_char :: "char \<Rightarrow> bool" where
  "ldh_char c = in_set [(CHR ''A'', CHR ''Z''), (CHR ''a'', CHR ''z''), (CHR ''0'', CHR ''9''),
                        (CHR ''-'', CHR ''-'')] c"

definition alpha_char :: "char \<Rightarrow> bool" where
  "alpha_char c = in_set [(CHR ''A'', CHR ''Z''), (CHR ''a'', CHR ''z'')] c"

text \<open>The labels of a name: \<open>s.split(c)\<close>.\<close>

fun split_on :: "char \<Rightarrow> string \<Rightarrow> string list" where
  "split_on c [] = [[]]"
| "split_on c (x # xs) =
     (if x = c then [] # split_on c xs
      else (case split_on c xs of [] \<Rightarrow> [[x]] | l # ls \<Rightarrow> (x # l) # ls))"

text \<open>A label is 1 to 63 characters of \<open>[A-Za-z0-9-]\<close> and neither starts nor ends with a
  hyphen; a final label is 2 to 63 letters.\<close>

definition valid_label :: "string \<Rightarrow> bool" where
  "valid_label l =
     (1 \<le> length l \<and> length l \<le> 63 \<and> list_all ldh_char l \<and>
      hd l \<noteq> CHR ''-'' \<and> last l \<noteq> CHR ''-'')"

definition valid_tld :: "string \<Rightarrow> bool" where
  "valid_tld l = (2 \<le> length l \<and> length l \<le> 63 \<and> list_all alpha_char l)"

definition domain_labels_ok :: "string \<Rightarrow> bool" where
  "domain_labels_ok s =
     (let labels = split_on CHR ''.'' s in
      2 \<le> length labels \<and> list_all valid_label labels \<and> valid_tld (last labels))"

text \<open>A string without the line feed it may end in.\<close>

definition chomp :: "string \<Rightarrow> string" where
  "chomp s = (if s \<noteq> [] \<and> last s = CHR 0x0A then butlast s else s)"

text \<open>The value a result reports, in the words of the specification: the first of the
  fields \<open>observable_value\<close>, \<open>value\<close> and \<open>name\<close> that is present and not empty, and the
  caller's input when there is none. Empty is what Python takes for false; for a field
  that holds a string, that is the empty string.\<close>

definition fallback_value :: "(string \<times> json) list \<Rightarrow> string \<Rightarrow> json" where
  "fallback_value kvs original =
     (case filter truthy (List.map_filter (map_of kvs) [''observable_value'', ''value'', ''name'']) of
        [] \<Rightarrow> JString original
      | x # _ \<Rightarrow> x)"

text \<open>A candidate matches a target, in the words of the specification: one of its string
  fields \<open>observable_value\<close>, \<open>value\<close> and \<open>name\<close>, lower-cased, is the target, or its
  hash list has an entry whose hash, lower-cased, is the target.\<close>

definition string_field :: "(string \<times> json) list \<Rightarrow> string \<Rightarrow> string option" where
  "string_field kvs k = (case map_of kvs k of Some (JString s) \<Rightarrow> Some s | _ \<Rightarrow> None)"

definition hash_strings :: "(string \<times> json) list \<Rightarrow> string list" where
  "hash_strings kvs =
     List.map_filter (\<lambda>entry. case entry of JObject e \<Rightarrow> string_field e ''hash'' | _ \<Rightarrow> None)
       (case map_of kvs ''hashes'' of Some (JArray entries) \<Rightarrow> entries | _ \<Rightarrow> [])"

definition spec_matches :: "(string \<times> json) list \<Rightarrow> string \<Rightarrow> bool" where
  "spec_matches kvs target =
     (target \<in> set (map lower (List.map_filter (string_field kvs) [''observable_value'', ''value'', ''name'']))
      \<or> target \<in> set (map lower (hash_strings kvs)))"

text \<open>A candidate as the data model of the specification has it: an edge with a non-empty
  node whose fields \<open>observable_value\<close>, \<open>value\<close> and \<open>name\<close> are strings where present,
  and whose hash list, where present, holds entries with a string for a hash.\<close>

definition string_or_absent :: "(string \<times> json) list \<Rightarrow> string \<Rightarrow> bool" where
  "string_or_absent kvs k = (case map_of kvs k of None \<Rightarrow> True | Some (JString _) \<Rightarrow> True | _ \<Rightarrow> False)"

definition wf_hash_entry :: "json \<Rightarrow> bool" where
  "wf_hash_entry entry = (case entry of JObject e \<Rightarrow> string_or_absent e ''hash'' | _ \<Rightarrow> False)"

definition wf_fields :: "(string \<times> json) list \<Rightarrow> bool" where
  "wf_fields kvs =
     (kvs \<noteq> [] \<and> list_all (string_or_absent kvs) [''observable_value'', ''value'', ''name''] \<and>
      (case map_of kvs ''hashes'' of
         None \<Rightarrow> True | Some JNull \<Rightarrow> True | Some (JArray entries) \<Rightarrow> list_all wf_hash_entry entries
       | _ \<Rightarrow> False))"

definition candidate_fields :: "json \<Rightarrow> (string \<times> json) list" where
  "candidate_fields edge =
     (case edge of
        JObject e \<Rightarrow> (case map_of e ''node'' of Some (JObject kvs) \<Rightarrow> kvs | _ \<Rightarrow> [])
      | _ \<Rightarrow> [])"

definition wf_candidate :: "json \<Rightarrow> bool" where
  "wf_candidate edge =
     (case edge of
        JObject e \<Rightarrow> (case map_of e ''node'' of Some (JObject kvs) \<Rightarrow> wf_fields kvs | _ \<Rightarrow> False)
      | _ \<Rightarrow> False)"


section \<open>An environment to run the model in\<close>

text \<open>A stand-in for \<open>ipaddress.ip_address\<close> that knows the addresses of the examples.\<close>

definition example_ip_address :: ip_parser where
  "example_ip_address s =
     (if s = ''8.8.8.8'' \<or> s = ''192.168.1.1'' then Some V4
      else if s = ''2001:db8::1'' then Some V6 else None)"

definition example_settings :: OpenCTISettings where
  "example_settings =
     \<lparr>base_url = ''https://opencti.example'', api_token = ''token'', verify_ssl = True,
      virustotal_connector_id = Some ''vt-connector''\<rparr>"

text \<open>A transport that answers every request with the same payload.\<close>

definition constant_transport :: "json \<Rightarrow> transport" where
  "constant_transport payload tr request = Payload payload"

definition example_env :: "json \<Rightarrow> env" where
  "example_env payload =
     \<lparr>env_ip_address = example_ip_address, env_post = constant_transport payload,
      env_settings = Inr example_settings\<rparr>"

text \<open>The data of a search that found nothing.\<close>

definition no_edges :: json where
  "no_edges = JObject [(''data'', JObject [(''stixCyberObservables'', JObject [(''edges'', JArray [])])])]"

text \<open>A search that finds one domain name.\<close>

definition found_example :: json where
  "found_example =
     JObject [(''data'', JObject [(''stixCyberObservables'', JObject [(''edges'', JArray
       [JObject [(''node'', JObject
          [(''id'', JString ''d1''), (''entity_type'', JString ''Domain-Name''),
           (''observable_value'', JString ''EXAMPLE.com''),
           (''value'', JString ''example.com'')])]])])])]"

text \<open>A search that finds one file that has hashes and no name, as the remote store
  returns it: \<open>name\<close> is \<open>null\<close>.\<close>

definition null_name_fields :: "(string \<times> json) list" where
  "null_name_fields =
     [(''id'', JString ''f1''), (''standard_id'', JString ''file--1''),
      (''entity_type'', JString ''StixFile''),
      (''observable_value'', JString ''44d88612fea8a8f36de82e1278abb02f''),
      (''name'', JNull),
      (''hashes'', JArray [JObject [(''algorithm'', JString ''MD5''),
                                    (''hash'', JString ''44d88612fea8a8f36de82e1278abb02f'')]])]"

definition null_name_example :: json where
  "null_name_example =
     JObject [(''data'', JObject [(''stixCyberObservables'', JObject [(''edges'', JArray
       [JObject [(''node'', JObject null_name_fields)]])])])]"

text \<open>A search that finds one file whose \<open>observable_value\<close> is empty and that has a
  name; a creation response with an identifier and no value.\<close>

definition named_example :: json where
  "named_example =
     JObject [(''data'', JObject [(''stixCyberObservables'', JObject [(''edges'', JArray
       [JObject [(''node'', JObject
          [(''id'', JString ''f2''), (''entity_type'', JString ''StixFile''),
           (''observable_value'', JString []), (''name'', JString ''Evil.EXE'')])]])])])]"

definition created_bare_example :: json where
  "created_bare_example =
     JObject [(''data'', JObject [(''stixCyberObservableAdd'',
        JObject [(''id'', JString ''abc''), (''entity_type'', JString ''IPv4-Addr'')])])]"

text \<open>A transport that finds nothing in a search and answers every other request with
  the given payload; a creation response without an identifier, and a response that
  reports an error.\<close>

definition creation_transport :: "json \<Rightarrow> transport" where
  "creation_transport payload tr request =
     (case request of Request FindObservables _ \<Rightarrow> Payload no_edges | _ \<Rightarrow> Payload payload)"

definition creation_env :: "json \<Rightarrow> env" where
  "creation_env payload =
     \<lparr>env_ip_address = example_ip_address, env_post = creation_transport payload,
      env_settings = Inr example_settings\<rparr>"



section \<open>Facts about \<open>strip\<close>\<close>

lemma rstrip_prefix: "\<exists>n. rev (dropWhile P (rev t)) = take n t"
proof -
  have "dropWhile P (rev t) = drop (length (takeWhile P (rev t))) (rev t)"
    by (simp add: dropWhile_eq_drop)
  then have "rev (dropWhile P (rev t)) = take (length t - length (takeWhile P (rev t))) t"
    by (simp add: rev_drop)
  then show ?thesis by blast
qed

lemma strip_ends:
  assumes "strip s \<noteq> []"
  shows "\<not> isspace (hd (strip s))" and "\<not> isspace (last (strip s))"
proof -
  let ?t = "dropWhile isspace s"
  obtain n where n: "strip s = take n ?t"
    using rstrip_prefix [of isspace ?t] by (auto simp: strip_def)
  with assms have "?t \<noteq> []" "0 < n" by auto
  then have "hd (strip s) = hd ?t" using n by (cases ?t) (auto simp: take_Suc_conv_app_nth gr0_conv_Suc)
  moreover have "\<not> isspace (hd ?t)" using \<open>?t \<noteq> []\<close> by (rule hd_dropWhile)
  ultimately show "\<not> isspace (hd (strip s))" by simp
  have "dropWhile isspace (rev ?t) \<noteq> []" using assms by (simp add: strip_def)
  then have "\<not> isspace (hd (dropWhile isspace (rev ?t)))" by (rule hd_dropWhile)
  then show "\<not> isspace (last (strip s))" by (simp add: strip_def last_rev)
qed

lemma strip_fixed:
  assumes "xs \<noteq> []" "\<not> isspace (hd xs)" "\<not> isspace (last xs)"
  shows "strip xs = xs"
proof -
  have "dropWhile isspace xs = xs" using assms by (cases xs) auto
  moreover have "dropWhile isspace (rev xs) = rev xs"
    using assms by (cases "rev xs") (auto simp: hd_rev)
  ultimately show ?thesis by (simp add: strip_def)
qed

lemma strip_Nil: "strip [] = []"
  by (simp add: strip_def)

lemma strip_idem: "strip (strip s) = strip s"
proof (cases "strip s = []")
  case True
  then show ?thesis by (simp add: strip_Nil)
next
  case False
  then show ?thesis by (intro strip_fixed strip_ends)
qed

section \<open>Facts about the matcher\<close>

lemma matches_at_Set_iff:
  "q \<in> set (matches_at (Set rs) p) \<longleftrightarrow>
     (\<exists>c. in_set rs c \<and> snd p = c # snd q \<and> fst q = c # fst p)"
  by (cases p; cases q) (auto split: list.splits)

lemma matches_at_Chr_iff:
  "q \<in> set (matches_at (Chr c) p) \<longleftrightarrow> (snd p = c # snd q \<and> fst q = c # fst p)"
  by (cases p; cases q) (auto split: list.splits)

lemma matches_at_Cat_iff:
  "q \<in> set (matches_at (Cat r s) p) \<longleftrightarrow>
     (\<exists>p'. p' \<in> set (matches_at r p) \<and> q \<in> set (matches_at s p'))"
  by auto

lemma matches_at_Rep_iff:
  "q \<in> set (matches_at (Rep r lo hi) p) \<longleftrightarrow>
     (\<exists>p'. p' \<in> set (rep_exact (matches_at r) lo p) \<and>
           q \<in> set (rep_upto (matches_at r)
                      (case hi of None \<Rightarrow> length (snd p) | Some h \<Rightarrow> h - lo) p'))"
  by auto

lemma rep_exact_chars:
  assumes f: "\<And>p q. q \<in> set (f p) \<longleftrightarrow> (\<exists>c. C c \<and> snd p = c # snd q \<and> fst q = c # fst p)"
  shows "q \<in> set (rep_exact f n p) \<longleftrightarrow>
     (\<exists>w. length w = n \<and> list_all C w \<and> snd p = w @ snd q \<and> fst q = rev w @ fst p)"
proof (induction n arbitrary: p)
  case 0
  show ?case by (auto simp: prod_eq_iff)
next
  case (Suc n)
  show ?case (is "?L \<longleftrightarrow> ?R")
  proof
    assume ?L
    then obtain p' where p': "p' \<in> set (f p)"
      and q: "q \<in> set (rep_exact f n p')" by auto
    from p' obtain c where c: "C c" "snd p = c # snd p'" "fst p' = c # fst p"
      by (auto simp: f)
    from q obtain w where w: "length w = n" "list_all C w" "snd p' = w @ snd q"
      "fst q = rev w @ fst p'" by (auto simp: Suc.IH)
    have "length (c # w) = Suc n \<and> list_all C (c # w) \<and> snd p = (c # w) @ snd q
        \<and> fst q = rev (c # w) @ fst p" using c w by simp
    then show ?R by blast
  next
    assume ?R
    then obtain w where w: "length w = Suc n" "list_all C w" "snd p = w @ snd q"
      "fst q = rev w @ fst p" by blast
    then obtain c v where cv: "w = c # v" by (cases w) auto
    let ?p' = "(c # fst p, v @ snd q)"
    have "?p' \<in> set (f p)" using w cv by (simp add: f)
    moreover have "q \<in> set (rep_exact f n ?p')"
      using w cv by (auto simp: Suc.IH)
    ultimately show ?L by auto
  qed
qed

lemma rep_upto_chars:
  assumes f: "\<And>p q. q \<in> set (f p) \<longleftrightarrow> (\<exists>c. C c \<and> snd p = c # snd q \<and> fst q = c # fst p)"
  shows "q \<in> set (rep_upto f n p) \<longleftrightarrow>
     (\<exists>w. length w \<le> n \<and> list_all C w \<and> snd p = w @ snd q \<and> fst q = rev w @ fst p)"
proof (induction n arbitrary: p)
  case 0
  show ?case by (auto simp: prod_eq_iff)
next
  case (Suc n)
  show ?case (is "?L \<longleftrightarrow> ?R")
  proof
    assume ?L
    then consider "q = p" | p' where "p' \<in> set (f p)"
      "q \<in> set (rep_upto f n p')" by auto
    then show ?R
    proof cases
      case 1
      then have "length ([]::string) \<le> Suc n \<and> list_all C [] \<and> snd p = [] @ snd q
        \<and> fst q = rev [] @ fst p" by simp
      then show ?thesis by blast
    next
      case 2
      from 2(1) obtain c where c: "C c" "snd p = c # snd p'" "fst p' = c # fst p"
        by (auto simp: f)
      from 2(2) obtain w where w: "length w \<le> n" "list_all C w" "snd p' = w @ snd q"
        "fst q = rev w @ fst p'" by (auto simp: Suc.IH)
      have "length (c # w) \<le> Suc n \<and> list_all C (c # w) \<and> snd p = (c # w) @ snd q
        \<and> fst q = rev (c # w) @ fst p" using c w by simp
      then show ?thesis by blast
    qed
  next
    assume ?R
    then obtain w where w: "length w \<le> Suc n" "list_all C w" "snd p = w @ snd q"
      "fst q = rev w @ fst p" by blast
    show ?L
    proof (cases w)
      case Nil
      with w have "q = p" by (simp add: prod_eq_iff)
      then show ?thesis by simp
    next
      case (Cons c v)
      let ?p' = "(c # fst p, v @ snd q)"
      have "?p' \<in> set (f p)" using w Cons by (simp add: f)
      moreover have "q \<in> set (rep_upto f n ?p')"
        using w Cons by (auto simp: Suc.IH)
      ultimately show ?thesis by auto
    qed
  qed
qed

lemma matches_at_Rep_Set_Some_iff:
  "q \<in> set (matches_at (Rep (Set rs) lo (Some hi)) p) \<longleftrightarrow>
     (\<exists>w. lo \<le> length w \<and> length w \<le> lo + (hi - lo) \<and> list_all (in_set rs) w
          \<and> snd p = w @ snd q \<and> fst q = rev w @ fst p)"
  (is "?L \<longleftrightarrow> ?R")
proof
  assume ?L
  then obtain p' where p': "p' \<in> set (rep_exact (matches_at (Set rs)) lo p)"
    and q: "q \<in> set (rep_upto (matches_at (Set rs)) (hi - lo) p')"
    unfolding matches_at_Rep_iff by auto
  from p' obtain u where u: "length u = lo" "list_all (in_set rs) u" "snd p = u @ snd p'"
    "fst p' = rev u @ fst p" by (auto simp: rep_exact_chars [of "matches_at (Set rs)" "in_set rs", OF matches_at_Set_iff] simp del: matches_at.simps)
  from q obtain v where v: "length v \<le> hi - lo" "list_all (in_set rs) v" "snd p' = v @ snd q"
    "fst q = rev v @ fst p'" by (auto simp: rep_upto_chars [of "matches_at (Set rs)" "in_set rs", OF matches_at_Set_iff] simp del: matches_at.simps)
  have "lo \<le> length (u @ v) \<and> length (u @ v) \<le> lo + (hi - lo) \<and> list_all (in_set rs) (u @ v)
          \<and> snd p = (u @ v) @ snd q \<and> fst q = rev (u @ v) @ fst p"
    using u v by simp
  then show ?R by blast
next
  assume ?R
  then obtain w where w: "lo \<le> length w" "length w \<le> lo + (hi - lo)" "list_all (in_set rs) w"
    "snd p = w @ snd q" "fst q = rev w @ fst p" by blast
  let ?u = "take lo w" and ?v = "drop lo w"
  let ?p' = "(rev ?u @ fst p, ?v @ snd q)"
  have uv: "w = ?u @ ?v" by simp
  have la: "list_all (in_set rs) ?u" "list_all (in_set rs) ?v"
    using w(3) by (auto simp: list_all_iff dest: in_set_takeD in_set_dropD)
  have "length ?u = lo \<and> list_all (in_set rs) ?u \<and> snd p = ?u @ snd ?p' \<and> fst ?p' = rev ?u @ fst p"
    using w la by simp
  then have 1: "?p' \<in> set (rep_exact (matches_at (Set rs)) lo p)"
    unfolding rep_exact_chars [of "matches_at (Set rs)" "in_set rs", OF matches_at_Set_iff] by blast
  have "rev w = rev ?v @ rev ?u" by (metis append_take_drop_id rev_append)
  then have "length ?v \<le> hi - lo \<and> list_all (in_set rs) ?v \<and> snd ?p' = ?v @ snd q \<and> fst q = rev ?v @ fst ?p'"
    using w la by simp
  then have 2: "q \<in> set (rep_upto (matches_at (Set rs)) (hi - lo) ?p')"
    unfolding rep_upto_chars [of "matches_at (Set rs)" "in_set rs", OF matches_at_Set_iff] by blast
  from 1 2 show ?L unfolding matches_at_Rep_iff by auto
qed

lemma matches_at_Rep_Set_iff:
  "q \<in> set (matches_at (Rep (Set rs) lo hi) p) \<longleftrightarrow>
     (\<exists>w. lo \<le> length w \<and> (case hi of None \<Rightarrow> True | Some h \<Rightarrow> length w \<le> lo + (h - lo))
          \<and> list_all (in_set rs) w \<and> snd p = w @ snd q \<and> fst q = rev w @ fst p)"
proof (cases hi)
  case (Some h)
  then show ?thesis by (simp only: matches_at_Rep_Set_Some_iff option.case)
next
  case None
  have "matches_at (Rep (Set rs) lo None) p = matches_at (Rep (Set rs) lo (Some (lo + length (snd p)))) p"
    by simp
  moreover have "length w \<le> lo + length (snd p)" if "snd p = w @ snd q" for w
    using that by simp
  ultimately show ?thesis
    unfolding None by (auto simp add: matches_at_Rep_Set_Some_iff simp del: matches_at.simps)
qed

lemma matches_at_Bol_iff: "q \<in> set (matches_at Bol p) \<longleftrightarrow> q = p \<and> fst p = []"
  by auto

lemma matches_at_Eol_iff:
  "q \<in> set (matches_at Eol p) \<longleftrightarrow> q = p \<and> (snd p = [] \<or> snd p = [CHR 0x0A])"
  by auto

lemma re_match_iff: "re_match r s \<longleftrightarrow> (\<exists>q. q \<in> set (matches_at r ([], s)))"
proof -
  have "xs \<noteq> [] \<longleftrightarrow> (\<exists>q. q \<in> set xs)" for xs :: "pos list"
    by (cases xs) auto
  then show ?thesis unfolding re_match_def .
qed

lemma re_match_HASH_REGEX:
  "re_match HASH_REGEX t \<longleftrightarrow>
     (\<exists>w. w \<noteq> [] \<and> list_all hex_char w \<and> (t = w \<or> t = w @ [CHR 0x0A]))"
proof -
  have "re_match HASH_REGEX t \<longleftrightarrow>
     (\<exists>w r. 1 \<le> length w \<and> list_all hex_char w \<and> t = w @ r \<and> (r = [] \<or> r = [CHR 0x0A]))"
    unfolding re_match_iff HASH_REGEX_def seq.simps hex_set_def matches_at_Cat_iff
      matches_at_Bol_iff matches_at_Eol_iff matches_at_Rep_Set_iff hex_char_def [abs_def]
    by (auto simp del: matches_at.simps)
  also have "\<dots> \<longleftrightarrow> (\<exists>w. w \<noteq> [] \<and> list_all hex_char w \<and> (t = w \<or> t = w @ [CHR 0x0A]))"
    by (auto simp: Suc_le_eq)
  finally show ?thesis .
qed

lemma hex_char_not_space: "hex_char c \<Longrightarrow> \<not> isspace c"
  by (auto simp: hex_char_def in_set_def isspace_def code_point_def Let_def)

lemma hex_char_not_newline: "hex_char c \<Longrightarrow> c \<noteq> CHR 0x0A"
  by (auto simp: hex_char_def in_set_def code_point_def)

lemma hex_char_lower: "hex_char c \<Longrightarrow> hex_char (lower_char c)"
  by (auto simp: hex_char_def in_set_def lower_char_def code_point_def Let_def)

lemma is_hash_hex:
  assumes "list_all hex_char s" "length s \<in> HASH_LENGTHS"
  shows "is_hash s"
proof -
  have "s \<noteq> []" using assms(2) by (auto simp: HASH_LENGTHS_def)
  then have "lower s \<noteq> []" by (simp add: lower_def)
  moreover have "list_all hex_char (lower s)"
    using assms(1) by (simp add: lower_def list_all_iff hex_char_lower)
  ultimately have "re_match HASH_REGEX (lower s)" unfolding re_match_HASH_REGEX by blast
  then show ?thesis using assms(2) by (simp add: is_hash_def lower_def)
qed

lemma strip_hex:
  assumes "list_all hex_char s"
  shows "strip s = s"
proof (cases "s = []")
  case True
  then show ?thesis by (simp add: strip_def)
next
  case False
  then have "hex_char (hd s)" "hex_char (last s)" using assms by (auto simp: list_all_iff)
  then show ?thesis using False by (intro strip_fixed hex_char_not_space)
qed

section \<open>What the domain pattern accepts\<close>

lemma matches_at_NotAhead_Chr_eq:
  "matches_at (NotAhead (Chr c)) p = (if snd p \<noteq> [] \<and> hd (snd p) = c then [] else [p])"
proof -
  have "matches_at (Chr c) p = [] \<longleftrightarrow> \<not> (snd p \<noteq> [] \<and> hd (snd p) = c)"
    by (cases "snd p") simp_all
  then show ?thesis by (simp only: matches_at.simps(7) split: if_splits) simp
qed

lemma matches_at_NotAhead_Chr_iff:
  "q \<in> set (matches_at (NotAhead (Chr c)) p) \<longleftrightarrow> q = p \<and> \<not> (snd p \<noteq> [] \<and> hd (snd p) = c)"
  by (simp only: matches_at_NotAhead_Chr_eq split: if_splits) simp

lemma behind_Chr:
  "list_ex (\<lambda>k. p \<in> set (matches_at (Chr c) (rewind k p))) [0 ..< Suc (length (fst p))]
     \<longleftrightarrow> fst p \<noteq> [] \<and> hd (fst p) = c"
  (is "?L \<longleftrightarrow> ?R")
proof
  assume ?L
  then obtain k where "p \<in> set (matches_at (Chr c) (rewind k p))"
    unfolding list_ex_iff by blast
  then have "fst p = c # fst (rewind k p)" by (simp only: matches_at_Chr_iff)
  then show ?R by (metis list.distinct(1) list.sel(1))
next
  assume ?R
  then obtain b where b: "fst p = c # b" by (cases "fst p") auto
  then have "snd (rewind 1 p) = c # snd p \<and> fst p = c # fst (rewind 1 p)"
    by (simp add: rewind_def)
  then have "p \<in> set (matches_at (Chr c) (rewind 1 p))" by (simp only: matches_at_Chr_iff)
  moreover have "(1::nat) \<in> {0 ..< Suc (length (fst p))}" using b by simp
  then have "1 \<in> set [0 ..< Suc (length (fst p))]" by (simp only: set_upt)
  ultimately show ?L unfolding list_ex_iff by blast
qed

lemma matches_at_NotBehind_Chr_eq:
  "matches_at (NotBehind (Chr c)) p = (if fst p \<noteq> [] \<and> hd (fst p) = c then [] else [p])"
  by (simp only: matches_at.simps(8) behind_Chr)

lemma matches_at_NotBehind_Chr_iff:
  "q \<in> set (matches_at (NotBehind (Chr c)) p) \<longleftrightarrow> q = p \<and> \<not> (fst p \<noteq> [] \<and> hd (fst p) = c)"
  by (simp only: matches_at_NotBehind_Chr_eq split: if_splits) simp

lemma matches_at_label_re:
  assumes "q \<in> set (matches_at label_re p)"
  shows "\<exists>w. valid_label w \<and> snd p = w @ snd q \<and> fst q = rev w @ fst p"
proof -
  from assms obtain p1 p2 where 1: "p1 \<in> set (matches_at (NotAhead (Chr CHR ''-'')) p)"
    and 2: "p2 \<in> set (matches_at (Rep (Set [(CHR ''A'', CHR ''Z''), (CHR ''a'', CHR ''z''),
               (CHR ''0'', CHR ''9''), (CHR ''-'', CHR ''-'')]) 1 (Some 63)) p1)"
    and 3: "q \<in> set (matches_at (NotBehind (Chr CHR ''-'')) p2)"
    unfolding label_re_def seq.simps ldh_set_def matches_at_Cat_iff by blast
  from 1 have p1: "p1 = p" and a: "\<not> (snd p \<noteq> [] \<and> hd (snd p) = CHR ''-'')"
    unfolding matches_at_NotAhead_Chr_iff by simp_all
  from 3 have p2: "p2 = q" and b: "\<not> (fst q \<noteq> [] \<and> hd (fst q) = CHR ''-'')"
    unfolding matches_at_NotBehind_Chr_iff by simp_all
  from 2 obtain w where w: "1 \<le> length w" "length w \<le> 1 + (63 - 1)" "list_all ldh_char w"
      "snd p = w @ snd q" "fst q = rev w @ fst p"
    unfolding matches_at_Rep_Set_iff p1 p2 ldh_char_def [abs_def] by auto
  from w(1) have ne: "w \<noteq> []" by auto
  then have "hd (snd p) = hd w" "snd p \<noteq> []" using w(4) by auto
  with a have 1: "hd w \<noteq> CHR ''-''" by simp
  from ne have "hd (fst q) = last w" "fst q \<noteq> []" using w(5) by (auto simp: hd_rev)
  with b have 2: "last w \<noteq> CHR ''-''" by simp
  have "valid_label w" using w 1 2 by (simp add: valid_label_def)
  with w show ?thesis by blast
qed

lemma matches_at_dot_label:
  assumes "q \<in> set (matches_at (Cat (Chr CHR ''.'') label_re) p)"
  shows "\<exists>w. valid_label w \<and> snd p = CHR ''.'' # w @ snd q"
proof -
  from assms obtain p' where p': "snd p = CHR ''.'' # snd p'" and "q \<in> set (matches_at label_re p')"
    unfolding matches_at_Cat_iff matches_at_Chr_iff by blast
  from matches_at_label_re [OF this(2)] p' show ?thesis by auto
qed

lemma rep_upto_dot_label:
  assumes "q \<in> set (rep_upto (matches_at (Cat (Chr CHR ''.'') label_re)) n p)"
  shows "\<exists>ws. list_all valid_label ws \<and> snd p = concat (map ((#) CHR ''.'') ws) @ snd q"
  using assms
proof (induction n arbitrary: p)
  case 0
  then have "list_all valid_label [] \<and> snd p = concat (map ((#) CHR ''.'') []) @ snd q" by simp
  then show ?case by blast
next
  case (Suc n)
  from Suc.prems consider "q = p"
    | p' where "p' \<in> set (matches_at (Cat (Chr CHR ''.'') label_re) p)"
        "q \<in> set (rep_upto (matches_at (Cat (Chr CHR ''.'') label_re)) n p')"
    by (auto simp del: matches_at.simps)
  then show ?case
  proof cases
    case 1
    then have "list_all valid_label [] \<and> snd p = concat (map ((#) CHR ''.'') []) @ snd q" by simp
    then show ?thesis by blast
  next
    case 2
    from matches_at_dot_label [OF 2(1)] obtain w where w: "valid_label w" "snd p = CHR ''.'' # w @ snd p'"
      by blast
    from Suc.IH [OF 2(2)] obtain ws where ws: "list_all valid_label ws"
      "snd p' = concat (map ((#) CHR ''.'') ws) @ snd q" by blast
    have "list_all valid_label (w # ws) \<and> snd p = concat (map ((#) CHR ''.'') (w # ws)) @ snd q"
      using w ws by simp
    then show ?thesis by blast
  qed
qed

lemma matches_at_tld:
  assumes "q \<in> set (matches_at (seq [Chr CHR ''.'', Rep alpha_set 2 (Some 63), Eol]) p)"
  shows "\<exists>t. valid_tld t \<and> (snd p = CHR ''.'' # t \<or> snd p = CHR ''.'' # t @ [CHR 0x0A])"
proof -
  from assms obtain p' p'' where 1: "p' \<in> set (matches_at (Chr CHR ''.'') p)"
    and 2: "p'' \<in> set (matches_at (Rep (Set [(CHR ''A'', CHR ''Z''), (CHR ''a'', CHR ''z'')]) 2 (Some 63)) p')"
    and 3: "q \<in> set (matches_at Eol p'')"
    unfolding seq.simps alpha_set_def matches_at_Cat_iff by blast
  from 1 have p': "snd p = CHR ''.'' # snd p'" unfolding matches_at_Chr_iff by simp
  from 3 have q: "p'' = q" and e: "snd q = [] \<or> snd q = [CHR 0x0A]"
    unfolding matches_at_Eol_iff by auto
  from 2 obtain t where t: "2 \<le> length t" "length t \<le> 2 + (63 - 2)" "list_all alpha_char t"
    "snd p' = t @ snd q"
    unfolding matches_at_Rep_Set_iff q alpha_char_def [abs_def] by auto
  have "valid_tld t" using t by (simp add: valid_tld_def)
  with p' t(4) e show ?thesis by auto
qed

lemma is_domain_shape:
  assumes "is_domain s"
  shows "\<exists>w ws t r. valid_label w \<and> list_all valid_label ws \<and> valid_tld t \<and>
           (r = [] \<or> r = [CHR 0x0A]) \<and> s = w @ concat (map ((#) CHR ''.'') ws) @ CHR ''.'' # t @ r"
proof -
  let ?G = "Rep (Cat (Chr CHR ''.'') label_re) 0 None"
  let ?T = "seq [Chr CHR ''.'', Rep alpha_set 2 (Some 63), Eol]"
  have dr: "DOMAIN_REGEX = Cat Bol (Cat label_re (Cat ?G ?T))"
    by (simp only: DOMAIN_REGEX_def seq.simps)
  from assms obtain q where "q \<in> set (matches_at DOMAIN_REGEX ([], s))"
    unfolding is_domain_def re_match_iff by blast
  then have "q \<in> set (matches_at (Cat Bol (Cat label_re (Cat ?G ?T))) ([], s))"
    by (simp only: dr)
  then have "\<exists>p'. p' \<in> set (matches_at Bol ([], s)) \<and> q \<in> set (matches_at (Cat label_re (Cat ?G ?T)) p')"
    by (rule matches_at_Cat_iff [THEN iffD1])
  then obtain p0 where 0: "p0 \<in> set (matches_at Bol ([], s))"
    and "q \<in> set (matches_at (Cat label_re (Cat ?G ?T)) p0)" by blast
  moreover from 0 have "p0 = ([], s)" by (simp only: matches_at_Bol_iff)
  ultimately have "q \<in> set (matches_at (Cat label_re (Cat ?G ?T)) ([], s))" by (simp only:)
  then have "\<exists>p'. p' \<in> set (matches_at label_re ([], s)) \<and> q \<in> set (matches_at (Cat ?G ?T) p')"
    by (rule matches_at_Cat_iff [THEN iffD1])
  then obtain p1 where 1: "p1 \<in> set (matches_at label_re ([], s))"
    and "q \<in> set (matches_at (Cat ?G ?T) p1)" by blast
  from this(2) have "\<exists>p'. p' \<in> set (matches_at ?G p1) \<and> q \<in> set (matches_at ?T p')"
    by (rule matches_at_Cat_iff [THEN iffD1])
  then obtain p2 where 2: "p2 \<in> set (matches_at ?G p1)"
    and 3: "q \<in> set (matches_at ?T p2)" by blast
  from matches_at_label_re [OF 1] obtain w where w: "valid_label w" "s = w @ snd p1" by auto
  from 2 have "p2 \<in> set (rep_upto (matches_at (Cat (Chr CHR ''.'') label_re)) (length (snd p1)) p1)"
    by (simp only: matches_at_Rep_iff rep_exact.simps list.set singleton_iff option.case) blast
  from rep_upto_dot_label [OF this] obtain ws where ws: "list_all valid_label ws"
    "snd p1 = concat (map ((#) CHR ''.'') ws) @ snd p2" by blast
  from matches_at_tld [OF 3] obtain t where t: "valid_tld t"
    "snd p2 = CHR ''.'' # t \<or> snd p2 = CHR ''.'' # t @ [CHR 0x0A]" by blast
  from t(2) obtain r where r: "r = [] \<or> r = [CHR 0x0A]" "snd p2 = CHR ''.'' # t @ r" by auto
  have "s = w @ concat (map ((#) CHR ''.'') ws) @ CHR ''.'' # t @ r"
    by (simp only: w(2) ws(2) r(2))
  with w(1) ws(1) t(1) r(1)
  have "valid_label w \<and> list_all valid_label ws \<and> valid_tld t \<and>
           (r = [] \<or> r = [CHR 0x0A]) \<and> s = w @ concat (map ((#) CHR ''.'') ws) @ CHR ''.'' # t @ r"
    by (intro conjI)
  then show ?thesis by (intro exI)
qed

lemma split_on_no_sep: "c \<notin> set w \<Longrightarrow> split_on c w = [w]"
  by (induction w) auto

lemma split_on_append: "c \<notin> set w \<Longrightarrow> split_on c (w @ c # rest) = w # split_on c rest"
  by (induction w) auto

lemma split_on_labels:
  assumes "c \<notin> set w" "\<forall>l\<in>set ws. c \<notin> set l" "c \<notin> set t"
  shows "split_on c (w @ concat (map ((#) c) ws) @ c # t) = w # ws @ [t]"
  using assms
proof (induction ws arbitrary: w)
  case Nil
  then show ?case by (simp add: split_on_append split_on_no_sep)
next
  case (Cons l ls)
  have "split_on c (w @ concat (map ((#) c) (l # ls)) @ c # t)
      = split_on c (w @ c # (l @ concat (map ((#) c) ls) @ c # t))" by simp
  also have "\<dots> = w # split_on c (l @ concat (map ((#) c) ls) @ c # t)"
    using Cons.prems(1) by (rule split_on_append)
  also have "split_on c (l @ concat (map ((#) c) ls) @ c # t) = l # ls @ [t]"
    using Cons.prems by (intro Cons.IH) auto
  finally show ?case by simp
qed

lemma alpha_char_ldh: "alpha_char c \<Longrightarrow> ldh_char c"
  by (auto simp: alpha_char_def ldh_char_def in_set_def)

lemma ldh_char_not_dot: "ldh_char c \<Longrightarrow> c \<noteq> CHR ''.''"
  by (auto simp: ldh_char_def in_set_def code_point_def)

lemma alpha_char_not_special: "alpha_char c \<Longrightarrow> c \<noteq> CHR ''-'' \<and> c \<noteq> CHR 0x0A"
  by (auto simp: alpha_char_def in_set_def code_point_def)

lemma valid_label_no_dot: "valid_label l \<Longrightarrow> CHR ''.'' \<notin> set l"
  by (auto simp: valid_label_def list_all_iff dest: ldh_char_not_dot)

lemma valid_tld_label:
  assumes "valid_tld t"
  shows "valid_label t" and "last t \<noteq> CHR 0x0A"
proof -
  from assms have ne: "t \<noteq> []" and a: "\<forall>c\<in>set t. alpha_char c" and l: "length t \<le> 63"
    by (auto simp: valid_tld_def list_all_iff)
  from ne have "hd t \<in> set t" "last t \<in> set t" by simp_all
  with a have "alpha_char (hd t)" "alpha_char (last t)" by blast+
  then have "hd t \<noteq> CHR ''-''" "last t \<noteq> CHR ''-''" "last t \<noteq> CHR 0x0A"
    using alpha_char_not_special by blast+
  moreover have "list_all ldh_char t" using a by (auto simp: list_all_iff alpha_char_ldh)
  moreover have "1 \<le> length t" using ne by (cases t) auto
  ultimately show "valid_label t" and "last t \<noteq> CHR 0x0A" using l by (auto simp: valid_label_def)
qed

lemma shape_labels_ok:
  assumes w: "valid_label w" and ws: "list_all valid_label ws" and t: "valid_tld t"
  shows "domain_labels_ok (w @ concat (map ((#) CHR ''.'') ws) @ CHR ''.'' # t)"
proof -
  have "split_on CHR ''.'' (w @ concat (map ((#) CHR ''.'') ws) @ CHR ''.'' # t) = w # ws @ [t]"
    using w ws t
    by (intro split_on_labels) (auto simp: list_all_iff valid_label_no_dot valid_tld_label(1))
  then show ?thesis
    using w ws t by (simp add: domain_labels_ok_def valid_tld_label(1))
qed

lemma is_domain_chomp:
  assumes "is_domain s"
  shows "domain_labels_ok (chomp s)"
proof -
  from is_domain_shape [OF assms] obtain w ws t r where w: "valid_label w"
    and ws: "list_all valid_label ws" and t: "valid_tld t" and r: "r = [] \<or> r = [CHR 0x0A]"
    and s: "s = w @ concat (map ((#) CHR ''.'') ws) @ CHR ''.'' # t @ r" by blast
  let ?name = "w @ concat (map ((#) CHR ''.'') ws) @ CHR ''.'' # t"
  from t have tne: "t \<noteq> []" by (auto simp: valid_tld_def)
  then have l: "last ?name = last t" by simp
  have "chomp s = ?name"
  proof (cases "r = []")
    case True
    with s have "s = ?name" by simp
    with l valid_tld_label(2) [OF t] show ?thesis by (simp add: chomp_def)
  next
    case False
    with r have "r = [CHR 0x0A]" by simp
    with s have "s = ?name @ [CHR 0x0A]" by simp
    then show ?thesis by (simp add: chomp_def butlast_append)
  qed
  with shape_labels_ok [OF w ws t] show ?thesis by simp
qed

lemma is_domain_labels:
  assumes "is_domain s" and "s = [] \<or> last s \<noteq> CHR 0x0A"
  shows "domain_labels_ok s"
  using is_domain_chomp [OF assms(1)] assms(2) by (auto simp: chomp_def)

lemma strip_no_newline: "strip s = [] \<or> last (strip s) \<noteq> CHR 0x0A"
proof (cases "strip s = []")
  case False
  then have "\<not> isspace (last (strip s))" by (rule strip_ends)
  moreover have "isspace CHR 0x0A" by (simp add: isspace_def code_point_def)
  ultimately show ?thesis by auto
qed simp

lemma infer_domain_is_domain:
  "infer_observable_type ip s = Some Domain \<Longrightarrow> is_domain (strip s)"
  by (simp add: infer_observable_type_def Let_def split: if_splits)

section \<open>The stages of the tools and the requests they issue\<close>

lemma strip_nonempty: "strip v \<noteq> [] \<Longrightarrow> v \<noteq> []"
  by (auto simp: strip_Nil)

lemma graphql_query_trace:
  "graphql_query post tr q vars = (r, tr') \<Longrightarrow> tr' = tr @ [Request q (py_or vars (JObject []))]"
  by (auto simp: graphql_query_def Let_def)

lemma find_observable_by_value_trace:
  assumes "find_observable_by_value post tr v types limit = (r, tr')"
  shows "tr' = tr @ [Request FindObservables
           (JObject [(''search'', JString v), (''types'', JArray (map JString types)),
                     (''first'', JInt limit)])]"
  using assms
  by (auto simp: find_observable_by_value_def py_or_def split: prod.splits sum.splits
      dest: graphql_query_trace)

lemma ask_enrichment_trace:
  assumes "ask_enrichment post tr oid cid = (r, tr')"
  shows "tr' = tr @ [Request AskEnrichment (JObject [(''id'', oid), (''connectorId'', JString cid)])]"
  using assms
  by (auto simp: ask_enrichment_def py_or_def split: prod.splits sum.splits
      dest: graphql_query_trace)

lemma build_client_ok: "env_settings E = Inr st \<Longrightarrow> build_client E = Inr st"
  by (simp add: build_client_def)

lemma ask_vt_unfold:
  assumes "strip v \<noteq> []" "env_settings E = Inr st" "virustotal_connector_id st = Some cid"
    "cid \<noteq> []" "normalize_observable_type (env_ip_address E) v vt = Inr k"
  shows "ask_virustotal_enrichment E v vt =
    (case find_observable_by_value (env_post E) [] (strip v) (OBSERVABLE_TYPES k) 10 of
          (Inl e, tr) \<Rightarrow>
            (Inl (except_api_error ''Failed to search for observable in OpenCTI.'' e), tr)
        | (Inr None, tr) \<Rightarrow>
            (Inl (ToolError (''No observable found matching value '' @ quoted v @
                             '' for type '' @ quoted (kind_name k) @ ''.'')), tr)
        | (Inr (Some observable), tr) \<Rightarrow>
       (case py_getitem observable ''id'' of
          Inl e \<Rightarrow> (Inl e, tr)
        | Inr observable_id \<Rightarrow>
       (case ask_enrichment (env_post E) tr observable_id cid of
          (Inl e, tr') \<Rightarrow>
            (Inl (except_api_error ''Failed to request enrichment from OpenCTI.'' e), tr')
        | (Inr work_id, tr') \<Rightarrow>
            (bind (dict_get observable ''observable_value'') (\<lambda>ov.
             bind (if truthy ov then Inr ov else dict_get observable ''value'') (\<lambda>ov_v.
             bind (if truthy ov_v then Inr ov_v else dict_get observable ''name'') (\<lambda>ov_v_n.
             bind (dict_get observable ''entity_type'') (\<lambda>entity_type.
               Inr (JObject
                 [(''work_id'', work_id),
                  (''connector_id'', JString cid),
                  (''observable'', JObject
                     [(''id'', observable_id), (''entity_type'', entity_type),
                      (''value'', py_or ov_v_n (JString v))])]))))), tr'))))"
  using assms strip_nonempty [OF assms(1)]
  by (simp add: ask_virustotal_enrichment_def build_client_ok Let_def)

lemma ask_vt_early:
  assumes "ask_virustotal_enrichment E v vt = (r, tr)"
  shows "tr = [] \<or> (\<exists>st cid k. strip v \<noteq> [] \<and> env_settings E = Inr st \<and>
           virustotal_connector_id st = Some cid \<and> cid \<noteq> [] \<and>
           normalize_observable_type (env_ip_address E) v vt = Inr k)"
proof (cases "strip v \<noteq> [] \<and> (\<exists>st cid k. env_settings E = Inr st \<and>
           virustotal_connector_id st = Some cid \<and> cid \<noteq> [] \<and>
           normalize_observable_type (env_ip_address E) v vt = Inr k)")
  case True
  then show ?thesis by blast
next
  case False
  then have "snd (ask_virustotal_enrichment E v vt) = []"
    by (auto simp: ask_virustotal_enrichment_def build_client_def Let_def
        split: sum.splits option.splits py_exception.splits)
  with assms show ?thesis by simp
qed

lemma fallback_value_chain:
  "py_or (let ov = (case map_of kvs ''observable_value'' of None \<Rightarrow> JNull | Some x \<Rightarrow> x) in
          if truthy ov then ov
          else let va = (case map_of kvs ''value'' of None \<Rightarrow> JNull | Some x \<Rightarrow> x) in
               if truthy va then va
               else (case map_of kvs ''name'' of None \<Rightarrow> JNull | Some x \<Rightarrow> x))
         (JString original)
   = fallback_value kvs original"
  by (auto simp: fallback_value_def py_or_def List.map_filter_simps Let_def split: option.splits)

lemma format_observable_result_value:
  assumes "format_observable_result observable original status = Inr res"
  shows "\<exists>kvs oid et. observable = JObject kvs \<and> map_of kvs ''id'' = Some oid \<and>
           res = JObject [(''status'', JString status),
                          (''observable'', JObject [(''id'', oid), (''entity_type'', et),
                             (''value'', fallback_value kvs original)])]"
proof (cases observable)
  case (JObject kvs)
  from assms obtain oid where oid: "map_of kvs ''id'' = Some oid"
    unfolding JObject format_observable_result_def
    by (cases "map_of kvs ''id''") (simp_all add: bind_def)
  have "res = JObject [(''status'', JString status),
                          (''observable'', JObject [(''id'', oid),
                             (''entity_type'', case map_of kvs ''entity_type'' of None \<Rightarrow> JNull | Some x \<Rightarrow> x),
                             (''value'', fallback_value kvs original)])]"
    using assms oid unfolding JObject format_observable_result_def fallback_value_chain [symmetric]
    by (auto simp: bind_def dict_get_def Let_def split: if_splits)
  with JObject oid show ?thesis by blast
qed (use assms in \<open>simp_all add: format_observable_result_def bind_def\<close>)

lemma format_observable_result_total:
  assumes "map_of kvs ''id'' = Some oid"
  shows "format_observable_result (JObject kvs) original status =
           Inr (JObject [(''status'', JString status),
                         (''observable'', JObject [(''id'', oid),
                            (''entity_type'', case map_of kvs ''entity_type'' of None \<Rightarrow> JNull | Some x \<Rightarrow> x),
                            (''value'', fallback_value kvs original)])])"
  using assms unfolding format_observable_result_def fallback_value_chain [symmetric]
  by (auto simp: bind_def dict_get_def Let_def)

lemma create_observable_unfold:
  assumes "strip v \<noteq> []" "env_settings E = Inr st"
    "normalize_observable_type (env_ip_address E) v vt = Inr k"
  shows "create_observable E v vt =
       (case find_observable_by_value (env_post E) [] (strip v) (OBSERVABLE_TYPES k) 10 of
          (Inl e, tr) \<Rightarrow>
            (Inl (except_api_error ''Failed to search for observable in OpenCTI.'' e), tr)
        | (Inr (Some existing), tr) \<Rightarrow> (format_observable_result existing v ''exists'', tr)
        | (Inr None, tr) \<Rightarrow>
       (case client_create_observable (env_ip_address E) (env_post E) tr (strip v) k of
          (Inl e, tr') \<Rightarrow>
            (Inl (except_api_error ''Failed to create observable in OpenCTI.'' e), tr')
        | (Inr created, tr') \<Rightarrow> (format_observable_result created v ''created'', tr')))"
  using assms strip_nonempty [OF assms(1)]
  by (simp add: create_observable_def build_client_ok Let_def)

lemma create_observable_early:
  assumes "create_observable E v vt = (Inr res, tr)"
  shows "\<exists>st k. strip v \<noteq> [] \<and> env_settings E = Inr st \<and>
           normalize_observable_type (env_ip_address E) v vt = Inr k"
proof (rule ccontr)
  assume "\<not> ?thesis"
  then have "\<exists>e. fst (create_observable E v vt) = Inl e"
    by (auto simp: create_observable_def build_client_def Let_def
        split: sum.splits option.splits py_exception.splits)
  with assms show False by simp
qed

lemma create_observable_result_shape:
  assumes "create_observable E v vt = (Inr res, tr)"
  shows "\<exists>status kvs oid et k.
           res = JObject [(''status'', JString status),
                          (''observable'', JObject [(''id'', oid), (''entity_type'', et),
                             (''value'', fallback_value kvs v)])] \<and>
           ((status = ''exists'' \<and>
             find_observable_by_value (env_post E) [] (strip v) (OBSERVABLE_TYPES k) 10 =
               (Inr (Some (JObject kvs)), tr)) \<or>
            (status = ''created'' \<and>
             (\<exists>tr0. find_observable_by_value (env_post E) [] (strip v) (OBSERVABLE_TYPES k) 10 =
                      (Inr None, tr0) \<and>
                    client_create_observable (env_ip_address E) (env_post E) tr0 (strip v) k =
                      (Inr (JObject kvs), tr))))"
proof -
  from create_observable_early [OF assms] obtain st k where h: "strip v \<noteq> []"
    "env_settings E = Inr st" "normalize_observable_type (env_ip_address E) v vt = Inr k" by blast
  obtain fr tr0 where f: "find_observable_by_value (env_post E) [] (strip v) (OBSERVABLE_TYPES k) 10 = (fr, tr0)"
    by (cases "find_observable_by_value (env_post E) [] (strip v) (OBSERVABLE_TYPES k) 10") blast
  note u = create_observable_unfold [OF h, unfolded f]
  show ?thesis
  proof (cases fr)
    case (Inl e)
    with u assms show ?thesis by simp
  next
    case (Inr m)
    show ?thesis
    proof (cases m)
      case (Some existing)
      with Inr u assms have "format_observable_result existing v ''exists'' = Inr res" "tr = tr0"
        by simp_all
      from format_observable_result_value [OF this(1)] f Inr Some \<open>tr = tr0\<close>
      show ?thesis by blast
    next
      case None
      obtain cr tr1 where c: "client_create_observable (env_ip_address E) (env_post E) tr0 (strip v) k = (cr, tr1)"
        by (cases "client_create_observable (env_ip_address E) (env_post E) tr0 (strip v) k") blast
      show ?thesis
      proof (cases cr)
        case (Inl e)
        with Inr None c u assms show ?thesis by simp
      next
        case created: (Inr created)
        with Inr None c u assms have "format_observable_result created v ''created'' = Inr res"
          "tr = tr1" by simp_all
        from format_observable_result_value [OF this(1)] f Inr None c created \<open>tr = tr1\<close>
        show ?thesis by blast
      qed
    qed
  qed
qed

section \<open>The match engine on candidates of the data model\<close>

lemma observed_values_JObject:
  "observed_values (JObject kvs) =
     Inr (map (\<lambda>k. lower (py_str (case map_of kvs k of None \<Rightarrow> JString [] | Some x \<Rightarrow> x)))
            [''observable_value'', ''value'', ''name''])"
  by (simp add: observed_values_def bind_def)

lemma match_observable_node_absent:
  assumes "target \<noteq> []"
    and "\<forall>k\<in>set [''observable_value'', ''value'', ''name'', ''hashes'']. map_of kvs k = None"
  shows "match_observable_node (JObject [(''node'', JObject kvs)]) target = Inr None"
proof -
  have "lower (py_str (JString [])) \<noteq> target"
    using assms(1) by (simp add: py_str_def lower_def)
  then show ?thesis
    using assms(2)
    by (simp add: match_observable_node_def observed_values_JObject bind_def dict_get_def
        py_or_def Let_def)
qed

lemma match_hashes_wf:
  assumes "list_all wf_hash_entry entries" "target \<noteq> []"
  shows "match_hashes entries target =
           Inr (target \<in> set (map lower (List.map_filter
                  (\<lambda>entry. case entry of JObject e \<Rightarrow> string_field e ''hash'' | _ \<Rightarrow> None) entries)))"
  using assms
proof (induction entries)
  case Nil
  show ?case by (simp add: List.map_filter_simps)
next
  case (Cons entry entries)
  from Cons.prems obtain e where e: "entry = JObject e" "string_or_absent e ''hash''"
    by (auto simp: wf_hash_entry_def split: json.splits)
  from Cons have IH: "match_hashes entries target =
           Inr (target \<in> set (map lower (List.map_filter
                  (\<lambda>entry. case entry of JObject e \<Rightarrow> string_field e ''hash'' | _ \<Rightarrow> None) entries)))"
    by simp
  show ?case
  proof (cases "map_of e ''hash''")
    case None
    then show ?thesis using e IH Cons.prems(2)
      by (auto simp: bind_def string_field_def List.map_filter_simps py_str_def lower_def)
  next
    case (Some h)
    with e(2) obtain s where "h = JString s" by (auto simp: string_or_absent_def split: json.splits)
    with Some show ?thesis using e IH
      by (auto simp: bind_def string_field_def List.map_filter_simps py_str_def)
  qed
qed

lemma field_contribution:
  assumes "string_or_absent kvs k" "target \<noteq> []"
  shows "lower (py_str (case map_of kvs k of None \<Rightarrow> JString [] | Some x \<Rightarrow> x)) = target
           \<longleftrightarrow> (\<exists>s. string_field kvs k = Some s \<and> lower s = target)"
  using assms
  by (auto simp: string_or_absent_def string_field_def py_str_def lower_def split: option.splits json.splits)

lemma observed_values_wf:
  assumes "list_all (string_or_absent kvs) [''observable_value'', ''value'', ''name'']" "target \<noteq> []"
  shows "target \<in> set (map (\<lambda>k. lower (py_str (case map_of kvs k of None \<Rightarrow> JString [] | Some x \<Rightarrow> x)))
            [''observable_value'', ''value'', ''name''])
       \<longleftrightarrow> target \<in> set (map lower (List.map_filter (string_field kvs) [''observable_value'', ''value'', ''name'']))"
proof -
  have "set (List.map_filter (string_field kvs) ks)
          = {s. \<exists>k\<in>set ks. string_field kvs k = Some s}" for ks
    by (induction ks) (auto simp: List.map_filter_simps split: option.splits)
  then have "target \<in> set (map lower (List.map_filter (string_field kvs) ks))
      \<longleftrightarrow> (\<exists>k\<in>set ks. \<exists>s. string_field kvs k = Some s \<and> lower s = target)" for ks
    by (simp only: set_map) blast
  moreover have "target \<in> set (map (\<lambda>k. lower (py_str (case map_of kvs k of None \<Rightarrow> JString [] | Some x \<Rightarrow> x))) ks)
      \<longleftrightarrow> (\<exists>k\<in>set ks. \<exists>s. string_field kvs k = Some s \<and> lower s = target)"
    if "list_all (string_or_absent kvs) ks" for ks
  proof -
    have "target \<in> set (map (\<lambda>k. lower (py_str (case map_of kvs k of None \<Rightarrow> JString [] | Some x \<Rightarrow> x))) ks)
      \<longleftrightarrow> (\<exists>k\<in>set ks. lower (py_str (case map_of kvs k of None \<Rightarrow> JString [] | Some x \<Rightarrow> x)) = target)"
      by auto
    also have "\<dots> \<longleftrightarrow> (\<exists>k\<in>set ks. \<exists>s. string_field kvs k = Some s \<and> lower s = target)"
      using that by (intro bex_cong refl field_contribution assms(2)) (simp add: list_all_iff)
    finally show ?thesis .
  qed
  ultimately show ?thesis using assms(1) by blast
qed

lemma match_observable_node_wf:
  assumes "wf_candidate edge" "target \<noteq> []"
  shows "match_observable_node edge target =
           Inr (if spec_matches (candidate_fields edge) target
                then Some (JObject (candidate_fields edge)) else None)"
proof -
  from assms(1) obtain e where e1: "edge = JObject e"
    by (cases edge) (simp_all add: wf_candidate_def)
  with assms(1) obtain n where n: "map_of e ''node'' = Some n"
    by (cases "map_of e ''node''") (simp_all add: wf_candidate_def)
  with assms(1) e1 obtain kvs where k: "n = JObject kvs"
    by (cases n) (simp_all add: wf_candidate_def)
  from e1 n k have e: "edge = JObject e" "map_of e ''node'' = Some (JObject kvs)" by simp_all
  with assms(1) have wf: "wf_fields kvs" by (simp add: wf_candidate_def)
  from e
  have cf: "candidate_fields edge = kvs" by (simp add: candidate_fields_def)
  from e have ne: "e \<noteq> []" by auto
  from wf have kne: "kvs \<noteq> []"
    and f: "list_all (string_or_absent kvs) [''observable_value'', ''value'', ''name'']"
    by (simp_all add: wf_fields_def)
  define vals where "vals = map (\<lambda>k. lower (py_str (case map_of kvs k of None \<Rightarrow> JString [] | Some x \<Rightarrow> x)))
            [''observable_value'', ''value'', ''name'']"
  define hres where "hres =
     bind (dict_get (JObject kvs) ''hashes'') (\<lambda>h.
     bind (py_iter (py_or h (JArray []))) (\<lambda>hashes.
     bind (match_hashes hashes target) (\<lambda>hit.
       if hit then Inr (Some (JObject kvs)) else Inr None)))"
  have ov: "target \<in> set vals \<longleftrightarrow>
      target \<in> set (map lower (List.map_filter (string_field kvs) [''observable_value'', ''value'', ''name'']))"
    unfolding vals_def by (rule observed_values_wf [OF f assms(2)])
  have obs: "observed_values (JObject kvs) = Inr vals"
    unfolding vals_def by (rule observed_values_JObject)
  have m: "match_observable_node edge target =
             (if target \<in> set vals then Inr (Some (JObject kvs)) else hres)"
    using ne kne
    by (simp add: e match_observable_node_def obs bind_def dict_get_def py_or_def Let_def hres_def)
  have h: "hres = Inr (if target \<in> set (map lower (hash_strings kvs)) then Some (JObject kvs) else None)"
  proof -
    from wf consider "map_of kvs ''hashes'' = None" | "map_of kvs ''hashes'' = Some JNull"
      | entries where "map_of kvs ''hashes'' = Some (JArray entries)" "list_all wf_hash_entry entries"
      by (auto simp: wf_fields_def split: option.splits json.splits)
    then show ?thesis
    proof cases
      case 1
      then show ?thesis
        by (simp add: hres_def bind_def dict_get_def py_or_def hash_strings_def List.map_filter_simps)
    next
      case 2
      then show ?thesis
        by (simp add: hres_def bind_def dict_get_def py_or_def hash_strings_def List.map_filter_simps)
    next
      case 3
      have "py_iter (py_or (JArray entries) (JArray [])) = Inr entries"
        by (cases entries) (simp_all add: py_or_def)
      then show ?thesis
        using 3(1) match_hashes_wf [OF 3(2) assms(2)]
        by (simp add: hres_def bind_def dict_get_def hash_strings_def)
    qed
  qed
  show ?thesis unfolding m h cf spec_matches_def ov by simp
qed

lemma find_first_match_wf:
  assumes "list_all wf_candidate edges" "target \<noteq> []"
  shows "find_first_match edges target =
           Inr (map_option (\<lambda>edge. JObject (candidate_fields edge))
                  (List.find (\<lambda>edge. spec_matches (candidate_fields edge) target) edges))"
  using assms(1)
proof (induction edges)
  case Nil
  show ?case by simp
next
  case (Cons edge edges)
  then have wf: "wf_candidate edge" and IH: "find_first_match edges target =
           Inr (map_option (\<lambda>edge. JObject (candidate_fields edge))
                  (List.find (\<lambda>edge. spec_matches (candidate_fields edge) target) edges))"
    by simp_all
  from wf have "candidate_fields edge \<noteq> []"
    by (auto simp: wf_candidate_def candidate_fields_def wf_fields_def split: json.splits option.splits)
  then show ?case
    using match_observable_node_wf [OF wf assms(2)] IH by (simp add: bind_def)
qed

section \<open>The hash algorithm resolver\<close>

text \<open>
  C3. A string of length 32 resolves to MD5, of length 40 to SHA-1, of length 64 to
  SHA-256 and of length 128 to SHA-512; for a string of any other length the resolver
  raises (a \<open>ValueError\<close> that reports the length) instead of returning an algorithm.
\<close>

theorem get_hash_algorithm_table:
  "get_hash_algorithm h =
     (if length h = 32 then Inr ''MD5''
      else if length h = 40 then Inr ''SHA-1''
      else if length h = 64 then Inr ''SHA-256''
      else if length h = 128 then Inr ''SHA-512''
      else Inl (ValueError (''Invalid hash length '' @ str_nat (length h)
                            @ ''. Expected one of: [32, 40, 64, 128]'')))"
  by (simp add: get_hash_algorithm_def)

section \<open>The classifier\<close>

text \<open>
  C10. The classifier trims its input itself: a string and the same string without its
  leading and trailing whitespace classify alike, and a string that is empty or only
  whitespace classifies as unknown.
\<close>

theorem infer_observable_type_strip:
  "infer_observable_type ip (strip s) = infer_observable_type ip s \<and>
   (strip s = [] \<longrightarrow> infer_observable_type ip s = None)"
  by (simp add: infer_observable_type_def strip_idem)

theorem infer_observable_type_strip_witness:
  "infer_observable_type example_ip_address (strip ''  8.8.8.8 '')
     = infer_observable_type example_ip_address ''  8.8.8.8 '' \<and>
   infer_observable_type example_ip_address ''  8.8.8.8 '' = Some Ip \<and>
   strip [CHR 0x20, CHR 0x09, CHR 0x0A] = [] \<and> infer_observable_type example_ip_address [CHR 0x20, CHR 0x09, CHR 0x0A] = None"
proof -
  have e: "strip [CHR 0x20, CHR 0x09, CHR 0x0A] = []" by code_simp
  have i: "infer_observable_type example_ip_address ''  8.8.8.8 '' = Some Ip" by code_simp
  from infer_observable_type_strip [where ip = example_ip_address and s = "''  8.8.8.8 ''"]
    infer_observable_type_strip [where ip = example_ip_address and s = "[CHR 0x20, CHR 0x09, CHR 0x0A]"] e i
  show ?thesis by simp
qed

text \<open>
  C2. A string of hexadecimal characters only, of length 32, 40, 64 or 128, that the
  address parser rejects is classified as a hash (and so never as a domain): the hash
  test comes before the domain test.
\<close>

theorem infer_observable_type_hash:
  assumes "list_all hex_char s" and "length s \<in> {32, 40, 64, 128}"
    and "ip_address s = None"
  shows "infer_observable_type ip_address s = Some Hash"
proof -
  have l: "length s \<in> HASH_LENGTHS" using assms(2) by (simp add: HASH_LENGTHS_def)
  then have "s \<noteq> []" by (auto simp: HASH_LENGTHS_def)
  moreover have "strip s = s" using assms(1) by (rule strip_hex)
  moreover have "is_hash s" using assms(1) l by (rule is_hash_hex)
  ultimately show ?thesis
    using assms(3) by (simp add: infer_observable_type_def is_ip_address_def)
qed

theorem infer_observable_type_hash_witness:
  "list_all hex_char ''d41d8cd98f00b204e9800998ecf8427E'' \<and>
   length ''d41d8cd98f00b204e9800998ecf8427E'' = 32 \<and>
   example_ip_address ''d41d8cd98f00b204e9800998ecf8427E'' = None \<and>
   infer_observable_type example_ip_address ''d41d8cd98f00b204e9800998ecf8427E'' = Some Hash"
proof -
  have h: "list_all hex_char ''d41d8cd98f00b204e9800998ecf8427E''" by code_simp
  have l: "length ''d41d8cd98f00b204e9800998ecf8427E'' = 32" by simp
  have n: "example_ip_address ''d41d8cd98f00b204e9800998ecf8427E'' = None"
    by (simp add: example_ip_address_def)
  from infer_observable_type_hash
         [where s = "''d41d8cd98f00b204e9800998ecf8427E''" and ip_address = example_ip_address] l h n
  show ?thesis by simp
qed

text \<open>
  C7. The domain test accepts \<open>example.com\<close> and rejects \<open>-bad.com\<close>, \<open>bad-.com\<close> and a
  name with a label of 64 characters. Every string that the classifier passes to it (a
  trimmed string) and that it accepts, so every string classified as a domain, splits
  at its dots into at least two labels, each of 1 to 63 characters of \<open>[A-Za-z0-9-]\<close> that
  neither starts nor ends with a hyphen, the last of them 2 to 63 letters: a string
  with a label that starts or ends with a hyphen or is longer than 63 characters is
  rejected. On a string that is not trimmed the same holds of the string without the
  one final line feed that \<open>$\<close> lets pass.
\<close>

theorem is_domain_grammar:
  "is_domain ''example.com'' \<and> \<not> is_domain ''-bad.com'' \<and> \<not> is_domain ''bad-.com'' \<and>
   \<not> is_domain (''a.'' @ replicate 64 CHR ''b'' @ ''.com'') \<and>
   (\<forall>s. is_domain (strip s) \<longrightarrow> domain_labels_ok (strip s)) \<and>
   (\<forall>ip s. infer_observable_type ip s = Some Domain \<longrightarrow> domain_labels_ok (strip s)) \<and>
   (\<forall>s. is_domain s \<longrightarrow> domain_labels_ok (chomp s))"
proof -
  have "is_domain ''example.com''" by code_simp
  moreover have "\<not> is_domain ''-bad.com''" by code_simp
  moreover have "\<not> is_domain ''bad-.com''" by code_simp
  moreover have "\<not> is_domain (''a.'' @ replicate 64 CHR ''b'' @ ''.com'')" by code_simp
  moreover have t: "domain_labels_ok (strip s)" if "is_domain (strip s)" for s
    using that strip_no_newline [of s] by (rule is_domain_labels)
  moreover have "domain_labels_ok (strip s)" if "infer_observable_type ip s = Some Domain" for ip s
    using that by (intro t infer_domain_is_domain)
  moreover have "domain_labels_ok (chomp s)" if "is_domain s" for s
    using that by (rule is_domain_chomp)
  ultimately show ?thesis by blast
qed

theorem is_domain_grammar_witness:
  "strip '' example.com '' = ''example.com'' \<and>
   is_domain (strip '' example.com '') \<and>
   infer_observable_type example_ip_address '' example.com '' = Some Domain \<and>
   domain_labels_ok (strip '' example.com '') \<and>
   split_on CHR ''.'' ''example.com'' = [''example'', ''com''] \<and>
   is_domain (''example.com'' @ [CHR 0x0A]) \<and>
   domain_labels_ok (chomp (''example.com'' @ [CHR 0x0A]))"
proof -
  have st: "strip '' example.com '' = ''example.com''" by code_simp
  have d: "is_domain (strip '' example.com '')" by code_simp
  have i: "infer_observable_type example_ip_address '' example.com '' = Some Domain" by code_simp
  have sp: "split_on CHR ''.'' ''example.com'' = [''example'', ''com'']" by simp
  have n: "is_domain (''example.com'' @ [CHR 0x0A])" by code_simp
  from is_domain_grammar have a: "\<forall>s. is_domain (strip s) \<longrightarrow> domain_labels_ok (strip s)"
    and b: "\<forall>ip s. infer_observable_type ip s = Some Domain \<longrightarrow> domain_labels_ok (strip s)"
    and c: "\<forall>s. is_domain s \<longrightarrow> domain_labels_ok (chomp s)" by blast+
  from a d have "domain_labels_ok (strip '' example.com '')" by blast
  moreover from c n have "domain_labels_ok (chomp (''example.com'' @ [CHR 0x0A]))" by blast
  ultimately show ?thesis using st d i sp n by blast
qed

section \<open>The match engine\<close>

text \<open>
  C1. The match engine is to return the first candidate, in the order received, one of
  whose fields \<open>observable_value\<close>, \<open>value\<close> and \<open>name\<close>, lower-cased, is the lower-cased
  target, or whose hash list has an entry with that hash, and \<open>None\<close> when there is none
  (on candidates of the data model it does: \<open>find_first_match_wf\<close>). The code departs
  from this on a field that is present without a string: it compares
  \<open>str(field).lower()\<close>, and \<open>str(None)\<close> is \<open>'None'\<close>. Searching for \<open>none\<close>, it returns
  a file whose \<open>name\<close> is \<open>null\<close>, although no field and no hash of that file is \<open>none\<close>,
  and the tool \<open>create_observable\<close> reports that the observable exists.
\<close>

theorem find_observable_by_value_null_name:
  "find_observable_by_value (constant_transport null_name_example) [] ''none''
       [''Artifact'', ''StixFile''] 10
     = (Inr (Some (JObject null_name_fields)),
        [Request FindObservables
           (JObject [(''search'', JString ''none''),
                     (''types'', JArray [JString ''Artifact'', JString ''StixFile'']),
                     (''first'', JInt 10)])]) \<and>
   \<not> spec_matches null_name_fields ''none'' \<and>
   fst (create_observable (example_env null_name_example) ''none'' (Some ''hash''))
     = Inr (JObject [(''status'', JString ''exists''),
                     (''observable'', JObject [(''id'', JString ''f1''),
                        (''entity_type'', JString ''StixFile''),
                        (''value'', JString ''44d88612fea8a8f36de82e1278abb02f'')])])"
proof -
  have "find_observable_by_value (constant_transport null_name_example) [] ''none''
       [''Artifact'', ''StixFile''] 10
     = (Inr (Some (JObject null_name_fields)),
        [Request FindObservables
           (JObject [(''search'', JString ''none''),
                     (''types'', JArray [JString ''Artifact'', JString ''StixFile'']),
                     (''first'', JInt 10)])])" by code_simp
  moreover have "\<not> spec_matches null_name_fields ''none''" by code_simp
  moreover have "fst (create_observable (example_env null_name_example) ''none'' (Some ''hash''))
     = Inr (JObject [(''status'', JString ''exists''),
                     (''observable'', JObject [(''id'', JString ''f1''),
                        (''entity_type'', JString ''StixFile''),
                        (''value'', JString ''44d88612fea8a8f36de82e1278abb02f'')])])"
    by code_simp
  ultimately show ?thesis by blast
qed

text \<open>
  C6. The comparison list is to be built from those of the fields \<open>observable_value\<close>,
  \<open>value\<close> and \<open>name\<close> that are present: a field that is absent or carries no string is
  to contribute nothing, so that no target matches through it (for an absent field and
  a target that is not empty this is so: \<open>match_observable_node_absent\<close>). The code
  departs from this on a field that is present and carries no string: the \<open>name\<close> of
  the file below is \<open>null\<close>, it contributes \<open>none\<close>, which is \<open>str(None).lower()\<close>, and the
  target \<open>none\<close> matches the file through it and through nothing else.
\<close>

theorem observed_values_null_name:
  "map_of null_name_fields ''name'' = Some JNull \<and>
   string_field null_name_fields ''name'' = None \<and>
   observed_values (JObject null_name_fields) =
     Inr [''44d88612fea8a8f36de82e1278abb02f'', [], ''none''] \<and>
   match_observable_node (JObject [(''node'', JObject null_name_fields)]) ''none'' =
     Inr (Some (JObject null_name_fields)) \<and>
   match_observable_node
       (JObject [(''node'', JObject (filter (\<lambda>kv. fst kv \<noteq> ''name'') null_name_fields))]) ''none'' =
     Inr None"
proof -
  have "map_of null_name_fields ''name'' = Some JNull" by code_simp
  moreover have "string_field null_name_fields ''name'' = None" by code_simp
  moreover have "observed_values (JObject null_name_fields) =
     Inr [''44d88612fea8a8f36de82e1278abb02f'', [], ''none'']" by code_simp
  moreover have "match_observable_node (JObject [(''node'', JObject null_name_fields)]) ''none'' =
     Inr (Some (JObject null_name_fields))" by code_simp
  moreover have "match_observable_node
       (JObject [(''node'', JObject (filter (\<lambda>kv. fst kv \<noteq> ''name'') null_name_fields))]) ''none'' =
     Inr None" by code_simp
  ultimately show ?thesis by blast
qed

section \<open>The tool \<open>create_observable\<close>\<close>

text \<open>
  C4. On the branch \<open>exists\<close>, for the record the search matched, and on the branch
  \<open>created\<close>, for the record the creation returned, \<open>create_observable\<close> returns the
  result whose value is the record's \<open>observable_value\<close> if present and not empty,
  otherwise its \<open>value\<close>, otherwise its \<open>name\<close>, otherwise the caller's input as given;
  and every result it returns is one of these two.
\<close>

theorem create_observable_value:
  "(strip v \<noteq> [] \<and> env_settings E = Inr st \<and>
    normalize_observable_type (env_ip_address E) v vt = Inr k \<and>
    find_observable_by_value (env_post E) [] (strip v) (OBSERVABLE_TYPES k) 10 =
      (Inr (Some (JObject kvs)), tr) \<and>
    map_of kvs ''id'' = Some oid
    \<longrightarrow> create_observable E v vt =
          (Inr (JObject [(''status'', JString ''exists''),
                         (''observable'', JObject [(''id'', oid),
                            (''entity_type'', case map_of kvs ''entity_type'' of None \<Rightarrow> JNull | Some x \<Rightarrow> x),
                            (''value'', fallback_value kvs v)])]), tr)) \<and>
   (strip v \<noteq> [] \<and> env_settings E = Inr st \<and>
    normalize_observable_type (env_ip_address E) v vt = Inr k \<and>
    find_observable_by_value (env_post E) [] (strip v) (OBSERVABLE_TYPES k) 10 = (Inr None, tr0) \<and>
    client_create_observable (env_ip_address E) (env_post E) tr0 (strip v) k =
      (Inr (JObject kvs'), tr') \<and>
    map_of kvs' ''id'' = Some oid'
    \<longrightarrow> create_observable E v vt =
          (Inr (JObject [(''status'', JString ''created''),
                         (''observable'', JObject [(''id'', oid'),
                            (''entity_type'', case map_of kvs' ''entity_type'' of None \<Rightarrow> JNull | Some x \<Rightarrow> x),
                            (''value'', fallback_value kvs' v)])]), tr')) \<and>
   (create_observable E v vt = (Inr res, tr'')
    \<longrightarrow> (\<exists>status rec rid et k'.
           res = JObject [(''status'', JString status),
                          (''observable'', JObject [(''id'', rid), (''entity_type'', et),
                             (''value'', fallback_value rec v)])] \<and>
           ((status = ''exists'' \<and>
             find_observable_by_value (env_post E) [] (strip v) (OBSERVABLE_TYPES k') 10 =
               (Inr (Some (JObject rec)), tr'')) \<or>
            (status = ''created'' \<and>
             (\<exists>tr1. find_observable_by_value (env_post E) [] (strip v) (OBSERVABLE_TYPES k') 10 =
                      (Inr None, tr1) \<and>
                    client_create_observable (env_ip_address E) (env_post E) tr1 (strip v) k' =
                      (Inr (JObject rec), tr''))))))"
proof (intro conjI impI)
  assume h: "strip v \<noteq> [] \<and> env_settings E = Inr st \<and>
    normalize_observable_type (env_ip_address E) v vt = Inr k \<and>
    find_observable_by_value (env_post E) [] (strip v) (OBSERVABLE_TYPES k) 10 =
      (Inr (Some (JObject kvs)), tr) \<and>
    map_of kvs ''id'' = Some oid"
  then have u: "create_observable E v vt =
       (case find_observable_by_value (env_post E) [] (strip v) (OBSERVABLE_TYPES k) 10 of
          (Inl e, tr) \<Rightarrow>
            (Inl (except_api_error ''Failed to search for observable in OpenCTI.'' e), tr)
        | (Inr (Some existing), tr) \<Rightarrow> (format_observable_result existing v ''exists'', tr)
        | (Inr None, tr) \<Rightarrow>
       (case client_create_observable (env_ip_address E) (env_post E) tr (strip v) k of
          (Inl e, tr') \<Rightarrow>
            (Inl (except_api_error ''Failed to create observable in OpenCTI.'' e), tr')
        | (Inr created, tr') \<Rightarrow> (format_observable_result created v ''created'', tr')))"
    by (intro create_observable_unfold) blast+
  from h have "format_observable_result (JObject kvs) v ''exists'' =
           Inr (JObject [(''status'', JString ''exists''),
                         (''observable'', JObject [(''id'', oid),
                            (''entity_type'', case map_of kvs ''entity_type'' of None \<Rightarrow> JNull | Some x \<Rightarrow> x),
                            (''value'', fallback_value kvs v)])])"
    by (intro format_observable_result_total) blast
  with u h show "create_observable E v vt =
          (Inr (JObject [(''status'', JString ''exists''),
                         (''observable'', JObject [(''id'', oid),
                            (''entity_type'', case map_of kvs ''entity_type'' of None \<Rightarrow> JNull | Some x \<Rightarrow> x),
                            (''value'', fallback_value kvs v)])]), tr)"
    by simp
next
  assume h: "strip v \<noteq> [] \<and> env_settings E = Inr st \<and>
    normalize_observable_type (env_ip_address E) v vt = Inr k \<and>
    find_observable_by_value (env_post E) [] (strip v) (OBSERVABLE_TYPES k) 10 = (Inr None, tr0) \<and>
    client_create_observable (env_ip_address E) (env_post E) tr0 (strip v) k =
      (Inr (JObject kvs'), tr') \<and>
    map_of kvs' ''id'' = Some oid'"
  then have u: "create_observable E v vt =
       (case find_observable_by_value (env_post E) [] (strip v) (OBSERVABLE_TYPES k) 10 of
          (Inl e, tr) \<Rightarrow>
            (Inl (except_api_error ''Failed to search for observable in OpenCTI.'' e), tr)
        | (Inr (Some existing), tr) \<Rightarrow> (format_observable_result existing v ''exists'', tr)
        | (Inr None, tr) \<Rightarrow>
       (case client_create_observable (env_ip_address E) (env_post E) tr (strip v) k of
          (Inl e, tr') \<Rightarrow>
            (Inl (except_api_error ''Failed to create observable in OpenCTI.'' e), tr')
        | (Inr created, tr') \<Rightarrow> (format_observable_result created v ''created'', tr')))"
    by (intro create_observable_unfold) blast+
  from h have "format_observable_result (JObject kvs') v ''created'' =
           Inr (JObject [(''status'', JString ''created''),
                         (''observable'', JObject [(''id'', oid'),
                            (''entity_type'', case map_of kvs' ''entity_type'' of None \<Rightarrow> JNull | Some x \<Rightarrow> x),
                            (''value'', fallback_value kvs' v)])])"
    by (intro format_observable_result_total) blast
  with u h show "create_observable E v vt =
          (Inr (JObject [(''status'', JString ''created''),
                         (''observable'', JObject [(''id'', oid'),
                            (''entity_type'', case map_of kvs' ''entity_type'' of None \<Rightarrow> JNull | Some x \<Rightarrow> x),
                            (''value'', fallback_value kvs' v)])]), tr')"
    by simp
next
  assume "create_observable E v vt = (Inr res, tr'')"
  then show "\<exists>status rec rid et k'.
           res = JObject [(''status'', JString status),
                          (''observable'', JObject [(''id'', rid), (''entity_type'', et),
                             (''value'', fallback_value rec v)])] \<and>
           ((status = ''exists'' \<and>
             find_observable_by_value (env_post E) [] (strip v) (OBSERVABLE_TYPES k') 10 =
               (Inr (Some (JObject rec)), tr'')) \<or>
            (status = ''created'' \<and>
             (\<exists>tr1. find_observable_by_value (env_post E) [] (strip v) (OBSERVABLE_TYPES k') 10 =
                      (Inr None, tr1) \<and>
                    client_create_observable (env_ip_address E) (env_post E) tr1 (strip v) k' =
                      (Inr (JObject rec), tr''))))"
    by (rule create_observable_result_shape)
qed

theorem create_observable_value_witness:
  "create_observable (example_env named_example) ''evil.exe'' (Some ''hash'') =
     (Inr (JObject [(''status'', JString ''exists''),
                    (''observable'', JObject [(''id'', JString ''f2''),
                       (''entity_type'', JString ''StixFile''),
                       (''value'', JString ''Evil.EXE'')])]),
      [Request FindObservables
         (JObject [(''search'', JString ''evil.exe''),
                   (''types'', JArray [JString ''Artifact'', JString ''StixFile'']),
                   (''first'', JInt 10)])]) \<and>
   create_observable (creation_env created_bare_example) '' 8.8.8.8 '' None =
     (Inr (JObject [(''status'', JString ''created''),
                    (''observable'', JObject [(''id'', JString ''abc''),
                       (''entity_type'', JString ''IPv4-Addr''),
                       (''value'', JString '' 8.8.8.8 '')])]),
      [Request FindObservables
         (JObject [(''search'', JString ''8.8.8.8''),
                   (''types'', JArray [JString ''IPv4-Addr'', JString ''IPv6-Addr'']),
                   (''first'', JInt 10)]),
       Request CreateIPv4
         (JObject [(''type'', JString ''IPv4-Addr''),
                   (''input'', JObject [(''value'', JString ''8.8.8.8'')])])])"
proof -
  let ?E = "example_env named_example"
  let ?kvs = "[(''id'', JString ''f2''), (''entity_type'', JString ''StixFile''),
           (''observable_value'', JString []), (''name'', JString ''Evil.EXE'')]"
  let ?tra = "[Request FindObservables
         (JObject [(''search'', JString ''evil.exe''),
                   (''types'', JArray [JString ''Artifact'', JString ''StixFile'']),
                   (''first'', JInt 10)])]"
  let ?C = "creation_env created_bare_example"
  let ?ckvs = "[(''id'', JString ''abc''), (''entity_type'', JString ''IPv4-Addr'')]"
  let ?trb = "[Request FindObservables
         (JObject [(''search'', JString ''8.8.8.8''),
                   (''types'', JArray [JString ''IPv4-Addr'', JString ''IPv6-Addr'']),
                   (''first'', JInt 10)])]"
  let ?trc = "?trb @ [Request CreateIPv4
         (JObject [(''type'', JString ''IPv4-Addr''),
                   (''input'', JObject [(''value'', JString ''8.8.8.8'')])])]"
  have e1: "strip ''evil.exe'' \<noteq> []" by code_simp
  have e2: "env_settings ?E = Inr example_settings" by (simp add: example_env_def)
  have e3: "normalize_observable_type (env_ip_address ?E) ''evil.exe'' (Some ''hash'') = Inr Hash"
    by code_simp
  have e4: "find_observable_by_value (env_post ?E) [] (strip ''evil.exe'') (OBSERVABLE_TYPES Hash) 10
              = (Inr (Some (JObject ?kvs)), ?tra)" by code_simp
  have e5: "map_of ?kvs ''id'' = Some (JString ''f2'')" by simp
  have e6: "fallback_value ?kvs ''evil.exe'' = JString ''Evil.EXE''" by code_simp
  have c1: "strip '' 8.8.8.8 '' \<noteq> []" by code_simp
  have c2: "env_settings ?C = Inr example_settings" by (simp add: creation_env_def)
  have c3: "normalize_observable_type (env_ip_address ?C) '' 8.8.8.8 '' None = Inr Ip"
    by code_simp
  have c4: "find_observable_by_value (env_post ?C) [] (strip '' 8.8.8.8 '') (OBSERVABLE_TYPES Ip) 10
              = (Inr None, ?trb)" by code_simp
  have c5: "client_create_observable (env_ip_address ?C) (env_post ?C) ?trb (strip '' 8.8.8.8 '') Ip
              = (Inr (JObject ?ckvs), ?trc)" by code_simp
  have c6: "map_of ?ckvs ''id'' = Some (JString ''abc'')" by simp
  have c7: "fallback_value ?ckvs '' 8.8.8.8 '' = JString '' 8.8.8.8 ''" by code_simp
  from create_observable_value
    [where v = "''evil.exe''" and E = ?E and st = example_settings and vt = "Some ''hash''"
       and k = Hash and kvs = ?kvs and tr = ?tra and oid = "JString ''f2''", THEN conjunct1]
    e1 e2 e3 e4 e5
  have "create_observable ?E ''evil.exe'' (Some ''hash'') =
          (Inr (JObject [(''status'', JString ''exists''),
                         (''observable'', JObject [(''id'', JString ''f2''),
                            (''entity_type'', case map_of ?kvs ''entity_type'' of None \<Rightarrow> JNull | Some x \<Rightarrow> x),
                            (''value'', fallback_value ?kvs ''evil.exe'')])]), ?tra)"
    by blast
  moreover from create_observable_value
    [where v = "'' 8.8.8.8 ''" and E = ?C and st = example_settings and vt = None
       and k = Ip and ?tr0.0 = ?trb and kvs' = ?ckvs and tr' = ?trc and oid' = "JString ''abc''",
     THEN conjunct2, THEN conjunct1]
    c1 c2 c3 c4 c5 c6
  have "create_observable ?C '' 8.8.8.8 '' None =
          (Inr (JObject [(''status'', JString ''created''),
                         (''observable'', JObject [(''id'', JString ''abc''),
                            (''entity_type'', case map_of ?ckvs ''entity_type'' of None \<Rightarrow> JNull | Some x \<Rightarrow> x),
                            (''value'', fallback_value ?ckvs '' 8.8.8.8 '')])]), ?trc)"
    by blast
  ultimately show ?thesis unfolding e6 c7 by simp
qed




text \<open>
  C8. For a value given without a kind, whose kind the classifier cannot infer,
  \<open>create_observable\<close> fails and the trace of requests is empty: no search and no
  creation was issued. When the value is not empty after trimming, the failure is the
  \<open>ToolError\<close> that asks for the kind; a value that is empty or only whitespace is
  rejected one step earlier, as not being a non-empty string.
\<close>

theorem create_observable_ambiguous:
  assumes "value_type = None \<or> value_type = Some []"
    and "infer_observable_type (env_ip_address E) v = None"
  shows "create_observable E v value_type =
           (Inl (ToolError
              (if strip v = [] then ''Parameter 'value' must be a non-empty string.''
               else ''Unable to infer value type. '' @
                    ''Please provide 'value_type' as ip, domain, or hash.'')), [])"
proof (cases "strip v = []")
  case True
  then show ?thesis by (simp add: create_observable_def)
next
  case False
  have "normalize_observable_type (env_ip_address E) v value_type =
          Inl (ToolError (''Unable to infer value type. '' @
                          ''Please provide 'value_type' as ip, domain, or hash.''))"
    using assms by (auto simp: normalize_observable_type_def)
  then show ?thesis using False strip_nonempty [OF False]
    by (simp add: create_observable_def)
qed

theorem create_observable_ambiguous_witness:
  "infer_observable_type (env_ip_address (example_env no_edges)) ''not a value!!'' = None \<and>
   strip ''not a value!!'' = ''not a value!!'' \<and>
   create_observable (example_env no_edges) ''not a value!!'' None =
     (Inl (ToolError (''Unable to infer value type. '' @
                      ''Please provide 'value_type' as ip, domain, or hash.'')), [])"
proof -
  have s: "strip ''not a value!!'' = ''not a value!!''" by code_simp
  have i: "infer_observable_type (env_ip_address (example_env no_edges)) ''not a value!!'' = None"
    by code_simp
  from create_observable_ambiguous [OF _ i, of None] s i show ?thesis by simp
qed

section \<open>The tool \<open>ask_virustotal_enrichment\<close>\<close>

text \<open>
  C9. When the search for the value finds no matching candidate, the tool fails with the
  \<open>ToolError\<close> \<open>No observable found ...\<close> and its trace holds no enrichment request. In
  every run, an enrichment request in the trace carries the \<open>id\<close> of the record that the
  search matched.
\<close>

theorem ask_virustotal_enrichment_not_found:
  "(strip v \<noteq> [] \<and> env_settings E = Inr st \<and> virustotal_connector_id st = Some cid \<and> cid \<noteq> [] \<and>
    normalize_observable_type (env_ip_address E) v vt = Inr k \<and>
    find_observable_by_value (env_post E) [] (strip v) (OBSERVABLE_TYPES k) 10 = (Inr None, tr)
    \<longrightarrow>
      ask_virustotal_enrichment E v vt =
        (Inl (ToolError (''No observable found matching value '' @ quoted v @
                         '' for type '' @ quoted (kind_name k) @ ''.'')), tr) \<and>
      (\<forall>vars. Request AskEnrichment vars \<notin> set tr)) \<and>
   (ask_virustotal_enrichment E' v' vt' = (r', tr') \<and> Request AskEnrichment vars' \<in> set tr'
    \<longrightarrow>
      (\<exists>k' node tr0 oid cid'.
         find_observable_by_value (env_post E') [] (strip v') (OBSERVABLE_TYPES k') 10 =
           (Inr (Some node), tr0) \<and>
         py_getitem node ''id'' = Inr oid \<and>
         vars' = JObject [(''id'', oid), (''connectorId'', JString cid')]))"
proof (intro conjI impI)
  assume h: "strip v \<noteq> [] \<and> env_settings E = Inr st \<and> virustotal_connector_id st = Some cid \<and>
    cid \<noteq> [] \<and> normalize_observable_type (env_ip_address E) v vt = Inr k \<and>
    find_observable_by_value (env_post E) [] (strip v) (OBSERVABLE_TYPES k) 10 = (Inr None, tr)"
  then show "ask_virustotal_enrichment E v vt =
        (Inl (ToolError (''No observable found matching value '' @ quoted v @
                         '' for type '' @ quoted (kind_name k) @ ''.'')), tr)"
    by (simp add: ask_vt_unfold [of v E st cid vt k])
  from h have "tr = [] @ [Request FindObservables
           (JObject [(''search'', JString (strip v)), (''types'', JArray (map JString (OBSERVABLE_TYPES k))),
                     (''first'', JInt 10)])]"
    by (intro find_observable_by_value_trace) blast
  then show "\<forall>vars. Request AskEnrichment vars \<notin> set tr" by simp
next
  assume a: "ask_virustotal_enrichment E' v' vt' = (r', tr') \<and> Request AskEnrichment vars' \<in> set tr'"
  then have "tr' \<noteq> []" by auto
  with a ask_vt_early [of E' v' vt' r' tr'] obtain st cid k where h: "strip v' \<noteq> []"
    "env_settings E' = Inr st" "virustotal_connector_id st = Some cid" "cid \<noteq> []"
    "normalize_observable_type (env_ip_address E') v' vt' = Inr k" by blast
  obtain fr tr0 where f: "find_observable_by_value (env_post E') [] (strip v') (OBSERVABLE_TYPES k) 10 = (fr, tr0)"
    by (cases "find_observable_by_value (env_post E') [] (strip v') (OBSERVABLE_TYPES k) 10") blast
  then have tr0: "tr0 = [] @ [Request FindObservables
           (JObject [(''search'', JString (strip v')), (''types'', JArray (map JString (OBSERVABLE_TYPES k))),
                     (''first'', JInt 10)])]"
    by (rule find_observable_by_value_trace)
  note u = ask_vt_unfold [OF h, unfolded f]
  show "\<exists>k' node tr0 oid cid'.
         find_observable_by_value (env_post E') [] (strip v') (OBSERVABLE_TYPES k') 10 =
           (Inr (Some node), tr0) \<and>
         py_getitem node ''id'' = Inr oid \<and>
         vars' = JObject [(''id'', oid), (''connectorId'', JString cid')]"
  proof (cases fr)
    case (Inl e)
    with u a have "tr' = tr0" by simp
    with a tr0 show ?thesis by simp
  next
    case (Inr m)
    show ?thesis
    proof (cases m)
      case None
      with Inr u a have "tr' = tr0" by simp
      with a tr0 show ?thesis by simp
    next
      case (Some node)
      show ?thesis
      proof (cases "py_getitem node ''id''")
        case (Inl e)
        with Inr Some u a have "tr' = tr0" by simp
        with a tr0 show ?thesis by simp
      next
        case oid: (Inr oid)
        obtain ar tr1 where ae: "ask_enrichment (env_post E') tr0 oid cid = (ar, tr1)"
          by (cases "ask_enrichment (env_post E') tr0 oid cid") blast
        then have tr1: "tr1 = tr0 @ [Request AskEnrichment (JObject [(''id'', oid), (''connectorId'', JString cid)])]"
          by (rule ask_enrichment_trace)
        from Inr Some oid ae u a have "tr' = tr1" by (cases ar) auto
        with a tr0 tr1 have "vars' = JObject [(''id'', oid), (''connectorId'', JString cid)]" by simp
        with f Inr Some oid show ?thesis by blast
      qed
    qed
  qed
qed

theorem ask_virustotal_enrichment_not_found_witness:
  "ask_virustotal_enrichment (example_env no_edges) ''example.com'' None =
     (Inl (ToolError ''No observable found matching value 'example.com' for type 'domain'.''),
      [Request FindObservables
         (JObject [(''search'', JString ''example.com''), (''types'', JArray [JString ''Domain-Name'']),
                   (''first'', JInt 10)])]) \<and>
   snd (ask_virustotal_enrichment (example_env found_example) ''example.com'' None) =
      [Request FindObservables
         (JObject [(''search'', JString ''example.com''), (''types'', JArray [JString ''Domain-Name'']),
                   (''first'', JInt 10)]),
       Request AskEnrichment (JObject [(''id'', JString ''d1''), (''connectorId'', JString ''vt-connector'')])] \<and>
   (\<exists>k' node tr0 oid cid'.
      find_observable_by_value (env_post (example_env found_example)) [] (strip ''example.com'')
          (OBSERVABLE_TYPES k') 10 = (Inr (Some node), tr0) \<and>
      py_getitem node ''id'' = Inr oid \<and>
      JObject [(''id'', JString ''d1''), (''connectorId'', JString ''vt-connector'')]
        = JObject [(''id'', oid), (''connectorId'', JString cid')])"
proof -
  let ?E = "example_env no_edges"
  let ?tr = "[Request FindObservables
         (JObject [(''search'', JString ''example.com''), (''types'', JArray [JString ''Domain-Name'']),
                   (''first'', JInt 10)])]"
  have 1: "strip ''example.com'' \<noteq> []" by code_simp
  have 2: "env_settings ?E = Inr example_settings" by (simp add: example_env_def)
  have 3: "virustotal_connector_id example_settings = Some ''vt-connector''"
    by (simp add: example_settings_def)
  have 4: "normalize_observable_type (env_ip_address ?E) ''example.com'' None = Inr Domain"
    by code_simp
  have 5: "find_observable_by_value (env_post ?E) [] (strip ''example.com'') (OBSERVABLE_TYPES Domain) 10
             = (Inr None, ?tr)" by code_simp
  from ask_virustotal_enrichment_not_found
    [where v = "''example.com''" and E = ?E and st = example_settings and cid = "''vt-connector''"
       and vt = None and k = Domain and tr = ?tr] 1 2 3 4 5
  have "ask_virustotal_enrichment ?E ''example.com'' None =
        (Inl (ToolError (''No observable found matching value '' @ quoted ''example.com'' @
                         '' for type '' @ quoted (kind_name Domain) @ ''.'')), ?tr)" by simp
  moreover have "snd (ask_virustotal_enrichment (example_env found_example) ''example.com'' None) =
      [Request FindObservables
         (JObject [(''search'', JString ''example.com''), (''types'', JArray [JString ''Domain-Name'']),
                   (''first'', JInt 10)]),
       Request AskEnrichment (JObject [(''id'', JString ''d1''), (''connectorId'', JString ''vt-connector'')])]"
    by code_simp
  moreover from this
  have mem: "Request AskEnrichment (JObject [(''id'', JString ''d1''), (''connectorId'', JString ''vt-connector'')])
      \<in> set (snd (ask_virustotal_enrichment (example_env found_example) ''example.com'' None))"
    by simp
  have run: "ask_virustotal_enrichment (example_env found_example) ''example.com'' None =
      (fst (ask_virustotal_enrichment (example_env found_example) ''example.com'' None),
       snd (ask_virustotal_enrichment (example_env found_example) ''example.com'' None))"
    by simp
  have "\<exists>k' node tr0 oid cid'.
      find_observable_by_value (env_post (example_env found_example)) [] (strip ''example.com'')
          (OBSERVABLE_TYPES k') 10 = (Inr (Some node), tr0) \<and>
      py_getitem node ''id'' = Inr oid \<and>
      JObject [(''id'', JString ''d1''), (''connectorId'', JString ''vt-connector'')]
        = JObject [(''id'', oid), (''connectorId'', JString cid')]"
    by (rule mp [OF ask_virustotal_enrichment_not_found
          [where E' = "example_env found_example" and v' = "''example.com''" and vt' = None
             and r' = "fst (ask_virustotal_enrichment (example_env found_example) ''example.com'' None)"
             and tr' = "snd (ask_virustotal_enrichment (example_env found_example) ''example.com'' None)"
             and vars' = "JObject [(''id'', JString ''d1''), (''connectorId'', JString ''vt-connector'')]",
           THEN conjunct2]
        conjI [OF run mem]])
  ultimately show ?thesis by (simp add: quoted_def kind_name_def)
qed


end
